theory Spec2Isabelle
  imports Complex_Main "HOL-Library.Multiset"
begin

section \<open>Data model\<close>

text \<open>
  A classified line is the pair \<open>(cmd, comment)\<close> that \<open>gcode.read_gcode_line\<close> returns:
  each side is a byte string or Python's \<open>None\<close>.  Python's truth test on such a value
  (\<open>if cmd\<close>, \<open>if comment\<close>) holds for a non-empty byte string only.
\<close>

type_synonym bytes = string
type_synonym line = "bytes option \<times> bytes option"

definition truthy :: "bytes option \<Rightarrow> bool" where
  "truthy b = (case b of None \<Rightarrow> False | Some s \<Rightarrow> s \<noteq> [])"

datatype action = ACT_INFILL | ACT_PASS | ACT_SWITCH

text \<open>
  The attributes of a \<open>Layer\<close> object that this file reads or writes.  Heights are
  Python floats; they are modelled as exact rationals, which agrees with the float
  arithmetic on the dyadic values used in the concrete evaluations below.
\<close>

record layer =
  num :: int
  z :: rat
  height :: rat
  lines :: "line list"
  action :: "action option"
  tower_slots :: nat

text \<open>
  Modelled from the spec: the constructor \<open>Layer(num, z, height)\<close> of the \<open>layer\<close>
  module, which is not part of this file.  It stores the ordinal index, the Z height and
  the thickness it is given; the line sequence starts empty, the action tag unset and
  the slot count at zero.
\<close>

definition Layer :: "int \<Rightarrow> rat \<Rightarrow> rat \<Rightarrow> layer" where
  "Layer n zz h = \<lparr>num = n, z = zz, height = h, lines = [], action = None, tower_slots = 0\<rparr>"

section \<open>Slot derivation (\<open>filter_layers\<close>, the loop over the reversed z list)\<close>

text \<open>
  One iteration of the loop \<open>for z in zs\<close> with \<open>lrs\<close> already summed: the counter
  is bumped when \<open>lrs > slots\<close>, a counter of three or more replaces \<open>slots\<close> by
  \<open>lrs\<close> and resets the counter, and only then is \<open>slots\<close> stored for the bucket.
\<close>

definition slot_step :: "nat \<times> nat \<Rightarrow> nat \<Rightarrow> nat \<times> nat" where
  "slot_step sc lrs =
     (let slots = fst sc;
          count = (if lrs > slots then snd sc + 1 else snd sc)
      in if count \<ge> 3 then (lrs, 0) else (slots, count))"

text \<open>
  The whole loop from the state \<open>(slots, count)\<close>: the value stored for every bucket,
  in loop order, and the value of \<open>slots\<close> when the loop ends (\<open>max_slots\<close>).
\<close>

fun slot_loop :: "nat \<times> nat \<Rightarrow> nat list \<Rightarrow> nat list \<times> nat" where
  "slot_loop sc [] = ([], fst sc)"
| "slot_loop sc (lrs # rest) =
     (let sc' = slot_step sc lrs;
          r = slot_loop sc' rest
      in (fst sc' # fst r, snd r))"

text \<open>The loop as the source starts it: \<open>slots = 1\<close>, \<open>count = 0\<close>.\<close>

definition derive_slots :: "nat list \<Rightarrow> nat list \<times> nat" where
  "derive_slots reqs = slot_loop (1, 0) reqs"

text \<open>
  Spec wording, for comparison: three neighbouring buckets all above the value \<open>s\<close>.
\<close>

fun three_consecutive_exceed :: "nat \<Rightarrow> nat list \<Rightarrow> bool" where
  "three_consecutive_exceed s (a # b # c # rest) =
     ((s < a \<and> s < b \<and> s < c) \<or> three_consecutive_exceed s (b # c # rest))"
| "three_consecutive_exceed s _ = False"

section \<open>Grouping, tagging and packing (\<open>filter_layers\<close>)\<close>

text \<open>
  Step 1 fills the dictionary \<open>layer_data\<close>, keyed by \<open>layer.z\<close>: a new key gets an
  empty list, then the layer is appended to the list of its key.  The dictionary is an
  association list with one entry per key, in order of first insertion.
\<close>

fun add_layer :: "layer \<Rightarrow> (rat \<times> layer list) list \<Rightarrow> (rat \<times> layer list) list" where
  "add_layer l [] = [(z l, [l])]"
| "add_layer l ((k, ls) # rest) =
     (if k = z l then (k, ls @ [l]) # rest else (k, ls) # add_layer l rest)"

definition group_layers :: "layer list \<Rightarrow> (rat \<times> layer list) list" where
  "group_layers layers = fold add_layer layers []"

text \<open>
  \<open>layer_data[z]['layers']\<close> and \<open>layer_data[z]['slots']\<close>.  Both are only read at keys
  taken from the dictionary itself (lemmas \<open>bucket_group_layers\<close> and
  \<open>slots_of_bucket_slots\<close> below), so the default is never returned.
\<close>

definition bucket :: "(rat \<times> layer list) list \<Rightarrow> rat \<Rightarrow> layer list" where
  "bucket layer_data k = (case map_of layer_data k of Some ls \<Rightarrow> ls | None \<Rightarrow> [])"

definition slots_of :: "(rat \<times> nat) list \<Rightarrow> rat \<Rightarrow> nat" where
  "slots_of slot_data k = (case map_of slot_data k of Some s \<Rightarrow> s | None \<Rightarrow> 0)"

text \<open>
  \<open>has_tool_changes\<close> belongs to the \<open>Layer\<close> class, which is not part of this file;
  it is the parameter \<open>htc\<close>, a number that Python adds to \<open>lrs\<close> and tests for
  truth (non-zero).  \<open>required\<close> is the inner loop that sums it over a bucket.
\<close>

definition required :: "(layer \<Rightarrow> nat) \<Rightarrow> layer list \<Rightarrow> nat" where
  "required htc ls = sum_list (map htc ls)"

text \<open>
  The first tagging loop of a bucket: every layer records the bucket's slot count, the
  ones with tool changes become \<open>ACT_SWITCH\<close> and are counted in \<open>slots_filled\<close>.
\<close>

fun tag_switch :: "(layer \<Rightarrow> nat) \<Rightarrow> nat \<Rightarrow> layer list \<Rightarrow> layer list \<times> nat" where
  "tag_switch htc s [] = ([], 0)"
| "tag_switch htc s (l # ls) =
     (let l1 = l\<lparr>tower_slots := s\<rparr>;
          r = tag_switch htc s ls
      in if htc l1 \<noteq> 0 then (l1\<lparr>action := Some ACT_SWITCH\<rparr> # fst r, snd r + 1)
         else (l1 # fst r, snd r))"

text \<open>
  The second tagging loop, run on the objects the first loop left: layers without tool
  changes fill the remaining slots as \<open>ACT_INFILL\<close>, the others become \<open>ACT_PASS\<close>.
\<close>

fun tag_others :: "(layer \<Rightarrow> nat) \<Rightarrow> nat \<Rightarrow> nat \<Rightarrow> layer list \<Rightarrow> layer list" where
  "tag_others htc s slots_filled [] = []"
| "tag_others htc s slots_filled (l # ls) =
     (if htc l = 0 then
        (if slots_filled < s
         then l\<lparr>action := Some ACT_INFILL\<rparr> # tag_others htc s (slots_filled + 1) ls
         else l\<lparr>action := Some ACT_PASS\<rparr> # tag_others htc s slots_filled ls)
      else l # tag_others htc s slots_filled ls)"

text \<open>The body of the tagging loop for one bucket, with its skip of a zero slot count.\<close>

definition tag_bucket :: "(layer \<Rightarrow> nat) \<Rightarrow> nat \<Rightarrow> layer list \<Rightarrow> layer list" where
  "tag_bucket htc s ls =
     (if s = 0 then ls
      else let r = tag_switch htc s ls in tag_others htc s (snd r) (fst r))"

text \<open>
  The z list in the order of the slot loop (sorted, then reversed), and the slot count
  the loop stores for each key.
\<close>

definition zs_desc :: "layer list \<Rightarrow> rat list" where
  "zs_desc layers = rev (sort (map fst (group_layers layers)))"

definition bucket_slots :: "(layer \<Rightarrow> nat) \<Rightarrow> layer list \<Rightarrow> (rat \<times> nat) list" where
  "bucket_slots htc layers =
     (let layer_data = group_layers layers;
          zs = zs_desc layers
      in zip zs (fst (derive_slots (map (\<lambda>k. required htc (bucket layer_data k)) zs))))"

text \<open>
  \<open>filter_layers\<close>: the pair of \<open>self.filtered_layers\<close> and \<open>self.max_slots\<close>.  The
  tagging and the packing walk the z list reversed once more, that is ascending; the
  packed list is sorted by \<open>num\<close> with Python's stable \<open>sorted\<close>.
\<close>

definition filter_layers :: "(layer \<Rightarrow> nat) \<Rightarrow> layer list \<Rightarrow> layer list \<times> nat" where
  "filter_layers htc layers =
     (let layer_data = group_layers layers;
          zs = zs_desc layers;
          max_slots = snd (derive_slots (map (\<lambda>k. required htc (bucket layer_data k)) zs));
          slot_data = bucket_slots htc layers;
          tagged = map (\<lambda>k. tag_bucket htc (slots_of slot_data k) (bucket layer_data k)) (rev zs)
      in (sort_key num (concat tagged), max_slots))"

text \<open>A layer with the two attributes that tagging writes blanked out.\<close>

definition untag :: "layer \<Rightarrow> layer" where
  "untag l = l\<lparr>action := None, tower_slots := 0\<rparr>"

section \<open>Byte strings and Python failures\<close>

text \<open>
  The exceptions this file can raise.  The two \<open>raise ValueError(...)\<close> statements of
  \<open>parse_header\<close> are kept apart from the \<open>ValueError\<close> of a failed \<open>int\<close> or
  \<open>float\<close> conversion by constructors of their own.
\<close>

datatype error =
  ValueError | IndexError | TypeError | RelativeENotEnabled | LayerHeightNotSupported

definition bind_err :: "error + 'a \<Rightarrow> ('a \<Rightarrow> error + 'b) \<Rightarrow> error + 'b" where
  "bind_err m f = (case m of Inl e \<Rightarrow> Inl e | Inr x \<Rightarrow> f x)"

text \<open>
  Python's \<open>int(b)\<close> and \<open>float(b)\<close> are parameters \<open>to_int\<close> and \<open>to_float\<close> of the
  functions below (\<open>None\<close> where the builtin raises); floats are read as rationals.
\<close>

definition int_of :: "(bytes \<Rightarrow> int option) \<Rightarrow> bytes \<Rightarrow> error + int" where
  "int_of to_int s = (case to_int s of None \<Rightarrow> Inl ValueError | Some n \<Rightarrow> Inr n)"

definition float_of :: "(bytes \<Rightarrow> rat option) \<Rightarrow> bytes \<Rightarrow> error + rat" where
  "float_of to_float s = (case to_float s of None \<Rightarrow> Inl ValueError | Some v \<Rightarrow> Inr v)"

text \<open>\<open>\d\<close> of a bytes pattern: an ASCII digit.\<close>

definition is_digit :: "char \<Rightarrow> bool" where
  "is_digit c = (c \<in> set ''0123456789'')"

text \<open>\<open>sub in s\<close> on bytes: \<open>sub\<close> occurs in \<open>s\<close> as a contiguous run.\<close>

fun contains :: "bytes \<Rightarrow> bytes \<Rightarrow> bool" where
  "contains sub [] = (sub = [])"
| "contains sub (c # cs) = (take (length sub) (c # cs) = sub \<or> contains sub cs)"

text \<open>
  \<open>s.split(sep)\<close> for a non-empty separator: \<open>skip\<close> counts the bytes of a separator
  still to be passed over, \<open>cur\<close> holds the current piece reversed.
\<close>

fun split_from :: "bytes \<Rightarrow> nat \<Rightarrow> bytes \<Rightarrow> bytes \<Rightarrow> bytes list" where
  "split_from sep skip cur [] = [rev cur]"
| "split_from sep skip cur (c # cs) =
     (if 0 < skip then split_from sep (skip - 1) cur cs
      else if take (length sep) (c # cs) = sep
        then rev cur # split_from sep (length sep - 1) [] cs
      else split_from sep 0 (c # cur) cs)"

definition bytes_split :: "bytes \<Rightarrow> bytes \<Rightarrow> bytes list" where
  "bytes_split s sep = split_from sep 0 [] s"

text \<open>\<open>s.strip(chars)\<close>: the bytes of \<open>chars\<close> removed from both ends.\<close>

definition bytes_strip :: "bytes \<Rightarrow> bytes \<Rightarrow> bytes" where
  "bytes_strip s chars =
     rev (dropWhile (\<lambda>c. c \<in> set chars) (rev (dropWhile (\<lambda>c. c \<in> set chars) s)))"

text \<open>
  Decimal readers for the concrete evaluations: on a plain decimal numeral they return the
  number Python's \<open>int\<close> and \<open>float\<close> denote (for \<open>float\<close>, before rounding), and
  \<open>None\<close> on anything else.
\<close>

definition dec_nat :: "bytes \<Rightarrow> nat" where
  "dec_nat s = foldl (\<lambda>n c. 10 * n + (of_char c - 48)) 0 s"

definition dec_int :: "bytes \<Rightarrow> int option" where
  "dec_int s = (if s \<noteq> [] \<and> list_all is_digit s then Some (int (dec_nat s)) else None)"

definition dec_float :: "bytes \<Rightarrow> rat option" where
  "dec_float s =
     (let a = takeWhile is_digit s in
      case dropWhile is_digit s of
        [] \<Rightarrow> if a = [] then None else Some (of_nat (dec_nat a))
      | c # f \<Rightarrow>
          if a \<noteq> [] \<and> c = CHR ''.'' \<and> list_all is_digit f
          then Some (of_nat (dec_nat a) + of_nat (dec_nat f) / 10 ^ length f)
          else None)"

section \<open>Layer segmentation (\<open>parse_layers\<close>, \<open>check_layer_change\<close>)\<close>

text \<open>
  \<open>LAYER_START_RE.match\<close> for the pattern \<open>BEFORE_LAYER_CHANGE (\d+) (\d+\.*\d*)\<close>,
  anchored at the start of the comment; the result is the pair of groups.  Every
  quantifier is greedy and none can give way: a shorter run of digits is followed by a
  digit, never by the blank the pattern needs next.
\<close>

definition LAYER_START_RE_match :: "bytes \<Rightarrow> (bytes \<times> bytes) option" where
  "LAYER_START_RE_match s =
     (let p = ''BEFORE_LAYER_CHANGE '' in
      if take (length p) s \<noteq> p then None
      else
        let r = drop (length p) s;
            g1 = takeWhile is_digit r
        in case dropWhile is_digit r of
             [] \<Rightarrow> None
           | c # r2 \<Rightarrow>
               let d1 = takeWhile is_digit r2;
                   r3 = dropWhile is_digit r2;
                   dots = takeWhile (\<lambda>x. x = CHR ''.'') r3;
                   d2 = takeWhile is_digit (dropWhile (\<lambda>x. x = CHR ''.'') r3)
               in if g1 = [] \<or> c \<noteq> CHR '' '' \<or> d1 = [] then None
                  else Some (g1, d1 @ dots @ d2))"

definition check_layer_change ::
  "(bytes \<Rightarrow> int option) \<Rightarrow> (bytes \<Rightarrow> rat option) \<Rightarrow> bytes \<Rightarrow> (int \<times> rat) option
     \<Rightarrow> error + (int \<times> rat) option" where
  "check_layer_change to_int to_float line current =
     (case LAYER_START_RE_match line of
        None \<Rightarrow> Inr current
      | Some (g1, g2) \<Rightarrow>
          bind_err (int_of to_int g1) (\<lambda>n.
          bind_err (float_of to_float g2) (\<lambda>zz. Inr (Some (n, zz)))))"

text \<open>The local variables of \<open>parse_layers\<close>, and \<open>self.layers\<close>.\<close>

record seg_state =
  prev_layer :: "layer option"
  prev_height :: rat
  current_layer :: layer
  layer_start :: bool
  layer_num :: int
  layer_z :: rat
  self_layers :: "layer list"

text \<open>
  Modelled from the spec: \<open>add_line\<close> of the \<open>Layer\<close> class, which is not part of this
  file; it appends the line to the layer's line sequence.
\<close>

definition add_line :: "layer \<Rightarrow> line \<Rightarrow> layer" where
  "add_line l line = l\<lparr>lines := lines l @ [line]\<rparr>"

text \<open>
  The body of \<open>if gcode.is_z_move(cmd)\<close>: either the current layer takes the marker's
  Z, or it is closed and a new layer is opened.  The thickness handed to the new layer
  is computed from the Z of the current layer and the Z of the layer closed before it.
\<close>

definition layer_change :: "seg_state \<Rightarrow> seg_state" where
  "layer_change st =
     (if num (current_layer st) = 1 \<and> layer_num st = 0
      then st\<lparr>layer_start := False,
              current_layer := (current_layer st)\<lparr>z := layer_z st\<rparr>\<rparr>
      else
        let prev_z = (case prev_layer st of Some p \<Rightarrow> z p | None \<Rightarrow> 0);
            h = z (current_layer st) - prev_z;
            h' = (if h \<noteq> 0 then h else prev_height st)
        in st\<lparr>layer_start := False,
              prev_height := h',
              self_layers := self_layers st @ [current_layer st],
              prev_layer := Some (current_layer st),
              current_layer := Layer (layer_num st) (layer_z st) h'\<rparr>)"

text \<open>
  One iteration of \<open>for line in lines\<close>, on the pair \<open>gcode.read_gcode_line\<close> returned
  for the line.  \<open>is_z_move\<close> stands for \<open>gcode.is_z_move\<close>, which is not part of this
  file.
\<close>

definition parse_line ::
  "(bytes \<Rightarrow> int option) \<Rightarrow> (bytes \<Rightarrow> rat option) \<Rightarrow> (bytes \<Rightarrow> bool)
     \<Rightarrow> seg_state \<Rightarrow> line \<Rightarrow> error + seg_state" where
  "parse_line to_int to_float is_z_move st line =
     bind_err
       (case snd line of
          None \<Rightarrow> Inr None
        | Some comment \<Rightarrow>
            if comment = [] then Inr None
            else check_layer_change to_int to_float comment None)
       (\<lambda>ret.
          let st1 = (case ret of
                       None \<Rightarrow> st
                     | Some (n, zz) \<Rightarrow> st\<lparr>layer_num := n, layer_z := zz, layer_start := True\<rparr>);
              st2 = (case fst line of
                       None \<Rightarrow> st1
                     | Some cmd \<Rightarrow>
                         if cmd \<noteq> [] \<and> layer_start st1 \<and> is_z_move cmd
                         then layer_change st1 else st1)
          in Inr (st2\<lparr>current_layer := add_line (current_layer st2) line\<rparr>))"

fun parse_lines ::
  "(bytes \<Rightarrow> int option) \<Rightarrow> (bytes \<Rightarrow> rat option) \<Rightarrow> (bytes \<Rightarrow> bool)
     \<Rightarrow> seg_state \<Rightarrow> line list \<Rightarrow> error + seg_state" where
  "parse_lines to_int to_float is_z_move st [] = Inr st"
| "parse_lines to_int to_float is_z_move st (line # rest) =
     bind_err (parse_line to_int to_float is_z_move st line)
       (\<lambda>st'. parse_lines to_int to_float is_z_move st' rest)"

text \<open>
  \<open>parse_layers\<close>.  \<open>first\<close> is the object \<open>FirstLayer(0, 0.2, 0.2)\<close> builds (the class
  is not part of this file) and \<open>layers0\<close> the value of \<open>self.layers\<close> on entry; the
  result is \<open>self.layers\<close> after the last layer is appended.
\<close>

definition seg_init :: "layer \<Rightarrow> layer list \<Rightarrow> seg_state" where
  "seg_init first layers0 =
     \<lparr>prev_layer = None, prev_height = 0, current_layer = first, layer_start = False,
      layer_num = 0, layer_z = 0, self_layers = layers0\<rparr>"

definition parse_layers ::
  "(bytes \<Rightarrow> int option) \<Rightarrow> (bytes \<Rightarrow> rat option) \<Rightarrow> (bytes \<Rightarrow> bool)
     \<Rightarrow> layer \<Rightarrow> layer list \<Rightarrow> line list \<Rightarrow> error + layer list" where
  "parse_layers to_int to_float is_z_move first layers0 input =
     bind_err (parse_lines to_int to_float is_z_move (seg_init first layers0) input)
       (\<lambda>st. Inr (self_layers st @ [current_layer st]))"

text \<open>
  A line that carries no layer marker (its comment is absent, empty or not matched by
  the pattern), and a line whose command is a Z move the loop would look at.
\<close>

definition no_marker :: "line \<Rightarrow> bool" where
  "no_marker line =
     (case snd line of None \<Rightarrow> True | Some c \<Rightarrow> c = [] \<or> LAYER_START_RE_match c = None)"

definition z_move_cmd :: "(bytes \<Rightarrow> bool) \<Rightarrow> line \<Rightarrow> bool" where
  "z_move_cmd is_z_move line =
     (case fst line of None \<Rightarrow> False | Some cmd \<Rightarrow> cmd \<noteq> [] \<and> is_z_move cmd)"

text \<open>A command reader for the concrete evaluations: a \<open>G1\<close> move that names Z.\<close>

definition g1_z_move :: "bytes \<Rightarrow> bool" where
  "g1_z_move cmd = (take 4 cmd = ''G1 Z'')"

text \<open>What the claims read off a segmented layer: ordinal, Z and thickness.\<close>

definition summary :: "layer \<Rightarrow> int \<times> rat \<times> rat" where
  "summary l = (num l, z l, height l)"

section \<open>First tool change (\<open>parse_print_settings\<close>)\<close>

text \<open>
  Modelled from the spec: \<open>read_lines\<close>, \<open>delete_line\<close> and \<open>insert_line\<close> of the
  \<open>Layer\<close> class, which is not part of this file.  \<open>read_lines\<close> yields the lines with
  their index, counted from 0; \<open>delete_line\<close> removes the line at an index;
  \<open>insert_line\<close> puts a new line immediately before the line at an index.
\<close>

definition delete_line :: "layer \<Rightarrow> nat \<Rightarrow> layer" where
  "delete_line l i = l\<lparr>lines := take i (lines l) @ drop (Suc i) (lines l)\<rparr>"

definition insert_line :: "layer \<Rightarrow> nat \<Rightarrow> bytes option \<Rightarrow> bytes option \<Rightarrow> layer" where
  "insert_line l i cmd comment = l\<lparr>lines := take i (lines l) @ (cmd, comment) # drop i (lines l)\<rparr>"

text \<open>
  \<open>cmd and gcode.is_tool_change(cmd) is not None\<close>: the detector \<open>gcode.is_tool_change\<close>
  (not part of this file) is the parameter \<open>is_tool_change\<close>, and is only asked about a
  non-empty command.  \<open>gcode.last_match\<close> after that call is the parameter
  \<open>last_match\<close>, a function of the same command.
\<close>

definition detected :: "(bytes \<Rightarrow> int option) \<Rightarrow> line \<Rightarrow> int option" where
  "detected is_tool_change line =
     (case fst line of None \<Rightarrow> None | Some cmd \<Rightarrow> if cmd = [] then None else is_tool_change cmd)"

text \<open>
  The loop over \<open>read_lines()\<close> up to its \<open>break\<close>: the index and the line of the first
  line past \<open>start_gcode_end\<close> whose command is detected as a tool change.
\<close>

fun first_tool_change ::
  "(bytes \<Rightarrow> int option) \<Rightarrow> int \<Rightarrow> nat \<Rightarrow> line list \<Rightarrow> (nat \<times> line) option" where
  "first_tool_change is_tool_change start_gcode_end line_index [] = None"
| "first_tool_change is_tool_change start_gcode_end line_index (line # rest) =
     (if start_gcode_end < int line_index \<and> detected is_tool_change line \<noteq> None
      then Some (line_index, line)
      else first_tool_change is_tool_change start_gcode_end (Suc line_index) rest)"

text \<open>
  \<open>parse_print_settings\<close> after the call of the superclass method, on \<open>self.layers\<close>;
  \<open>start_gcode_end\<close> is the attribute of \<open>self.layers[0]\<close>.
\<close>

definition parse_print_settings ::
  "(bytes \<Rightarrow> int option) \<Rightarrow> (bytes \<Rightarrow> int option) \<Rightarrow> int \<Rightarrow> layer list
     \<Rightarrow> error + layer list" where
  "parse_print_settings is_tool_change last_match start_gcode_end all_layers =
     (case all_layers of
        [] \<Rightarrow> Inl IndexError
      | l # rest \<Rightarrow>
          (case first_tool_change is_tool_change start_gcode_end 0 (lines l) of
             None \<Rightarrow> Inr (l # rest)
           | Some (line_index, line) \<Rightarrow>
               if (case fst line of None \<Rightarrow> None | Some cmd \<Rightarrow> last_match cmd) = Some 0
               then Inr (delete_line l line_index # rest)
               else Inr (insert_line l line_index None (Some ''TOOL CHANGE'') # rest)))"

text \<open>
  Line \<open>i\<close> is past the start-gcode region and its command is detected as a tool change.
\<close>

definition tool_change_at :: "(bytes \<Rightarrow> int option) \<Rightarrow> int \<Rightarrow> line list \<Rightarrow> nat \<Rightarrow> bool" where
  "tool_change_at is_tool_change start_gcode_end ls i =
     (i < length ls \<and> start_gcode_end < int i \<and> detected is_tool_change (ls ! i) \<noteq> None)"

text \<open>A tool-change detector for the concrete evaluations: \<open>T\<close> and one digit.\<close>

definition t_digit :: "bytes \<Rightarrow> int option" where
  "t_digit cmd =
     (case cmd of
        [a, d] \<Rightarrow> if a = CHR ''T'' \<and> is_digit d then Some (int (of_char d) - 48) else None
      | _ \<Rightarrow> None)"

section \<open>Header settings (\<open>parse_header\<close>)\<close>

datatype machine = TYPE_CARTESIAN | TYPE_DELTA

text \<open>
  Modelled from the spec: the per-tool record of the \<open>Extruder\<close> class, which is not
  part of this file, with the attributes \<open>parse_header\<close> writes; \<open>Extruder(tool)\<close>
  leaves them all unset.
\<close>

record extruder =
  tool_index :: nat
  feed_rate_multiplier :: "rat option"
  filament_type :: "bytes option"
  retract :: "rat option"
  z_hop :: "rat option"
  retract_speed :: "rat option"
  wipe :: "int option"
  temperature_nr :: "nat option"
  temperature_setpoints :: "nat \<rightharpoonup> int"
  z_offset :: "rat option"

definition Extruder :: "nat \<Rightarrow> extruder" where
  "Extruder t =
     \<lparr>tool_index = t, feed_rate_multiplier = None, filament_type = None, retract = None,
      z_hop = None, retract_speed = None, wipe = None, temperature_nr = None,
      temperature_setpoints = Map.empty, z_offset = None\<rparr>"

text \<open>
  The attributes of the file object that \<open>parse_header\<close> reads or writes; \<open>None\<close>
  is Python's \<open>None\<close>.
\<close>

record header =
  version :: "(int \<times> int \<times> int) option"
  machine_type :: "machine option"
  origin_offset_x :: "rat option"
  origin_offset_y :: "rat option"
  stroke_x :: "rat option"
  stroke_y :: "rat option"
  extruders :: "nat \<rightharpoonup> extruder"
  default_speed :: "rat option"
  first_layer_speed :: "rat option"
  travel_xy_speed :: "rat option"
  travel_z_speed :: "rat option"
  outer_perimeter_speed :: "rat option"
  layer_height :: "rat option"

text \<open>
  \<open>__init__\<close>: the attributes this class sets after the superclass constructor (not
  part of this file) has produced \<open>base\<close>.
\<close>

definition init_header :: "header \<Rightarrow> header" where
  "init_header base =
     base\<lparr>version := None, default_speed := None, machine_type := None,
          stroke_x := None, stroke_y := None,
          origin_offset_x := None, origin_offset_y := None\<rparr>"

text \<open>A header with nothing set, for the concrete evaluations.\<close>

definition blank_header :: header where
  "blank_header =
     \<lparr>version = None, machine_type = None, origin_offset_x = None, origin_offset_y = None,
      stroke_x = None, stroke_y = None, extruders = Map.empty, default_speed = None,
      first_layer_speed = None, travel_xy_speed = None, travel_z_speed = None,
      outer_perimeter_speed = None, layer_height = None\<rparr>"

text \<open>
  \<open>VERSION_RE.match\<close> for \<open>.*(\d+)\.(\d+)\.(\d+)-prusa3d-.*\<close>.  \<open>version_at\<close>
  matches the three groups and the suffix at the start of its argument; the leading
  greedy \<open>.*\<close> makes the match start as far right as possible, and never passes a
  newline.
\<close>

definition version_at :: "bytes \<Rightarrow> (bytes \<times> bytes \<times> bytes) option" where
  "version_at s =
     (let a = takeWhile is_digit s in
      case dropWhile is_digit s of
        [] \<Rightarrow> None
      | c1 # r1 \<Rightarrow>
          (let b = takeWhile is_digit r1 in
           case dropWhile is_digit r1 of
             [] \<Rightarrow> None
           | c2 # r2 \<Rightarrow>
               (let c = takeWhile is_digit r2;
                    r3 = dropWhile is_digit r2
                in if a \<noteq> [] \<and> c1 = CHR ''.'' \<and> b \<noteq> [] \<and> c2 = CHR ''.'' \<and> c \<noteq> []
                      \<and> take 9 r3 = ''-prusa3d-''
                   then Some (a, b, c) else None)))"

fun VERSION_RE_match :: "bytes \<Rightarrow> (bytes \<times> bytes \<times> bytes) option" where
  "VERSION_RE_match [] = None"
| "VERSION_RE_match (c # cs) =
     (case (if c = CHR 0x0A then None else VERSION_RE_match cs) of
        Some g \<Rightarrow> Some g
      | None \<Rightarrow> version_at (c # cs))"

text \<open>
  The \<open>try\<close> block of the version branch: any exception inside it is caught, and
  \<open>self.version\<close> is then left as it was.
\<close>

definition parse_version :: "(bytes \<Rightarrow> int option) \<Rightarrow> bytes \<Rightarrow> header \<Rightarrow> header" where
  "parse_version to_int comment h =
     (case VERSION_RE_match comment of
        None \<Rightarrow> h
      | Some (a, b, c) \<Rightarrow>
          (case (to_int a, to_int b, to_int c) of
             (Some x, Some y, Some w) \<Rightarrow> h\<lparr>version := Some (x, y, w)\<rparr>
           | _ \<Rightarrow> h))"

text \<open>\<open>comment.split(b' = ')[1]\<close>.\<close>

definition value_of :: "bytes \<Rightarrow> error + bytes" where
  "value_of comment =
     (case bytes_split comment '' = '' of
        a # v # rest \<Rightarrow> Inr v
      | _ \<Rightarrow> Inl IndexError)"

text \<open>\<open>float(v.split(b"x")[i])\<close>.\<close>

definition coord :: "(bytes \<Rightarrow> rat option) \<Rightarrow> bytes \<Rightarrow> nat \<Rightarrow> error + rat" where
  "coord to_float v i =
     (let parts = bytes_split v ''x''
      in if i < length parts then float_of to_float (parts ! i) else Inl IndexError)"

fun delta_points :: "(bytes \<Rightarrow> rat option) \<Rightarrow> bytes list \<Rightarrow> error + (rat list \<times> rat list)" where
  "delta_points to_float [] = Inr ([], [])"
| "delta_points to_float (v # vs) =
     bind_err (coord to_float v 0) (\<lambda>x.
     bind_err (coord to_float v 1) (\<lambda>y.
     bind_err (delta_points to_float vs) (\<lambda>r. Inr (x # fst r, y # snd r))))"

definition bed_shape :: "(bytes \<Rightarrow> rat option) \<Rightarrow> bytes list \<Rightarrow> header \<Rightarrow> error + header" where
  "bed_shape to_float values h =
     (if length values = 4 then
        bind_err (coord to_float (values ! 0) 0) (\<lambda>x0.
        bind_err (coord to_float (values ! 0) 1) (\<lambda>y0.
        bind_err (coord to_float (values ! 2) 0) (\<lambda>x2.
        bind_err (coord to_float (values ! 2) 1) (\<lambda>y2.
          Inr (h\<lparr>machine_type := Some TYPE_CARTESIAN,
                 origin_offset_x := Some (- x0), origin_offset_y := Some (- y0),
                 stroke_x := Some (x2 + - x0), stroke_y := Some (y2 + - y0)\<rparr>)))))
      else
        bind_err (delta_points to_float values) (\<lambda>r.
          case r of
            (x # xs, y # ys) \<Rightarrow>
              let sx = fold max xs x - fold min xs x;
                  sy = fold max ys y - fold min ys y
              in Inr (h\<lparr>machine_type := Some TYPE_DELTA,
                        stroke_x := Some sx, stroke_y := Some sy,
                        origin_offset_x := Some (sx / 2), origin_offset_y := Some (sy / 2)\<rparr>)
          | _ \<Rightarrow> Inl ValueError))"

text \<open>
  The loops \<open>for d in values.split(...)\<close>: the extruder of the running tool index is
  created when missing, then \<open>upd\<close> writes the attribute of the branch.
\<close>

fun for_tools ::
  "(nat \<Rightarrow> bytes \<Rightarrow> extruder \<Rightarrow> error + extruder) \<Rightarrow> nat \<Rightarrow> bytes list
     \<Rightarrow> (nat \<rightharpoonup> extruder) \<Rightarrow> error + (nat \<rightharpoonup> extruder)" where
  "for_tools upd t [] exts = Inr exts"
| "for_tools upd t (d # ds) exts =
     (let e = (case exts t of None \<Rightarrow> Extruder t | Some e \<Rightarrow> e)
      in bind_err (upd t d e) (\<lambda>e'. for_tools upd (Suc t) ds (exts(t \<mapsto> e'))))"

definition per_tool ::
  "(nat \<Rightarrow> bytes \<Rightarrow> extruder \<Rightarrow> error + extruder) \<Rightarrow> bytes \<Rightarrow> bytes \<Rightarrow> header
     \<Rightarrow> error + header" where
  "per_tool upd sep comment h =
     bind_err (value_of comment) (\<lambda>values.
     bind_err (for_tools upd 0 (bytes_split values sep) (extruders h)) (\<lambda>exts.
       Inr (h\<lparr>extruders := exts\<rparr>)))"

text \<open>The branches of the \<open>if\<close>/\<open>elif\<close> chain, in the order of the source.\<close>

datatype annotation =
  Generated | BedShape | ExtrusionMultiplier | FilamentType | RetractLength | RetractLift
  | RetractSpeed | UseRelativeE | Wipe | PerimeterSpeed | ZOffset | FirstLayerSpeed
  | TravelSpeed | LayerHeight | FirstLayerTemperature | Temperature

definition annotation_keys :: "(bytes \<times> annotation) list" where
  "annotation_keys =
     [(''generated by Slic3r'', Generated),
      (''bed_shape ='', BedShape),
      (''extrusion_multiplier ='', ExtrusionMultiplier),
      (''filament_type ='', FilamentType),
      (''retract_length ='', RetractLength),
      (''retract_lift ='', RetractLift),
      (''retract_speed ='', RetractSpeed),
      (''use_relative_e_distances ='', UseRelativeE),
      (''wipe = '', Wipe),
      (''perimeter_speed ='', PerimeterSpeed),
      (''z_offset ='', ZOffset),
      (''first_layer_speed ='', FirstLayerSpeed),
      (''travel_speed ='', TravelSpeed),
      ('' layer_height ='', LayerHeight),
      (''first_layer_temperature ='', FirstLayerTemperature),
      ('' temperature ='', Temperature)]"

fun first_key :: "(bytes \<times> annotation) list \<Rightarrow> bytes \<Rightarrow> annotation option" where
  "first_key [] comment = None"
| "first_key ((k, a) # rest) comment =
     (if contains k comment then Some a else first_key rest comment)"

definition annotation_of :: "bytes \<Rightarrow> annotation option" where
  "annotation_of comment = first_key annotation_keys comment"

text \<open>
  The body of one branch, on the header attributes and the local \<open>z_offset\<close>.
\<close>

fun apply_annotation ::
  "(bytes \<Rightarrow> int option) \<Rightarrow> (bytes \<Rightarrow> rat option) \<Rightarrow> annotation \<Rightarrow> bytes
     \<Rightarrow> header \<times> rat \<Rightarrow> error + header \<times> rat" where
  "apply_annotation to_int to_float Generated comment (h, zo) =
     Inr (parse_version to_int comment h, zo)"
| "apply_annotation to_int to_float BedShape comment (h, zo) =
     bind_err (value_of comment) (\<lambda>v.
     bind_err (bed_shape to_float (bytes_split v '','') h) (\<lambda>h'. Inr (h', zo)))"
| "apply_annotation to_int to_float ExtrusionMultiplier comment (h, zo) =
     bind_err (per_tool (\<lambda>t d e. bind_err (float_of to_float d)
                  (\<lambda>f. Inr (e\<lparr>feed_rate_multiplier := Some f\<rparr>))) '','' comment h)
       (\<lambda>h'. Inr (h', zo))"
| "apply_annotation to_int to_float FilamentType comment (h, zo) =
     bind_err (per_tool (\<lambda>t d e. Inr (e\<lparr>filament_type := Some d\<rparr>)) '';'' comment h)
       (\<lambda>h'. Inr (h', zo))"
| "apply_annotation to_int to_float RetractLength comment (h, zo) =
     bind_err (per_tool (\<lambda>t d e. bind_err (float_of to_float d)
                  (\<lambda>f. Inr (e\<lparr>retract := Some f\<rparr>))) '','' comment h)
       (\<lambda>h'. Inr (h', zo))"
| "apply_annotation to_int to_float RetractLift comment (h, zo) =
     bind_err (per_tool (\<lambda>t d e. bind_err (float_of to_float d)
                  (\<lambda>f. Inr (e\<lparr>z_hop := Some f\<rparr>))) '','' comment h)
       (\<lambda>h'. Inr (h', zo))"
| "apply_annotation to_int to_float RetractSpeed comment (h, zo) =
     bind_err (per_tool (\<lambda>t d e. bind_err (float_of to_float d)
                  (\<lambda>f. Inr (e\<lparr>retract_speed := Some (60 * f)\<rparr>))) '','' comment h)
       (\<lambda>h'. Inr (h', zo))"
| "apply_annotation to_int to_float UseRelativeE comment (h, zo) =
     bind_err (value_of comment) (\<lambda>v.
       if v \<noteq> ''1'' then Inl RelativeENotEnabled else Inr (h, zo))"
| "apply_annotation to_int to_float Wipe comment (h, zo) =
     bind_err (per_tool (\<lambda>t d e. Inr (if d = ''1'' then e\<lparr>wipe := Some 4\<rparr> else e))
                 '','' comment h)
       (\<lambda>h'. Inr (h', zo))"
| "apply_annotation to_int to_float PerimeterSpeed comment (h, zo) =
     bind_err (value_of comment) (\<lambda>v.
     bind_err (float_of to_float v) (\<lambda>f. Inr (h\<lparr>default_speed := Some (f * 60)\<rparr>, zo)))"
| "apply_annotation to_int to_float ZOffset comment (h, zo) =
     bind_err (value_of comment) (\<lambda>v.
     bind_err (float_of to_float v) (\<lambda>f. Inr (h, f)))"
| "apply_annotation to_int to_float FirstLayerSpeed comment (h, zo) =
     bind_err (value_of comment) (\<lambda>v.
     bind_err (float_of to_float (bytes_strip v ''%'')) (\<lambda>f.
       Inr (h\<lparr>first_layer_speed := Some f\<rparr>, zo)))"
| "apply_annotation to_int to_float TravelSpeed comment (h, zo) =
     bind_err (value_of comment) (\<lambda>v.
     bind_err (float_of to_float v) (\<lambda>f. Inr (h\<lparr>travel_xy_speed := Some (f * 60)\<rparr>, zo)))"
| "apply_annotation to_int to_float LayerHeight comment (h, zo) =
     bind_err (value_of comment) (\<lambda>v.
     bind_err (float_of to_float v) (\<lambda>f. Inr (h\<lparr>layer_height := Some f\<rparr>, zo)))"
| "apply_annotation to_int to_float FirstLayerTemperature comment (h, zo) =
     bind_err (per_tool (\<lambda>t d e. bind_err (int_of to_int d)
                  (\<lambda>n. Inr (e\<lparr>temperature_nr := Some t,
                             temperature_setpoints := (temperature_setpoints e)(1 \<mapsto> n)\<rparr>)))
                 '','' comment h)
       (\<lambda>h'. Inr (h', zo))"
| "apply_annotation to_int to_float Temperature comment (h, zo) =
     bind_err (per_tool (\<lambda>t d e. bind_err (int_of to_int d)
                  (\<lambda>n. Inr (e\<lparr>temperature_setpoints := (temperature_setpoints e)(2 \<mapsto> n)\<rparr>)))
                 '','' comment h)
       (\<lambda>h'. Inr (h', zo))"

text \<open>
  One line of the scan: a line with a command is skipped; on the others the \<open>in\<close>
  tests run on the comment, which raises \<open>TypeError\<close> when the comment is \<open>None\<close>.
\<close>

definition scan_line ::
  "(bytes \<Rightarrow> int option) \<Rightarrow> (bytes \<Rightarrow> rat option) \<Rightarrow> header \<times> rat \<Rightarrow> line
     \<Rightarrow> error + header \<times> rat" where
  "scan_line to_int to_float s line =
     (if truthy (fst line) then Inr s
      else case snd line of
             None \<Rightarrow> Inl TypeError
           | Some comment \<Rightarrow>
               (case annotation_of comment of
                  None \<Rightarrow> Inr s
                | Some a \<Rightarrow> apply_annotation to_int to_float a comment s))"

fun scan_lines ::
  "(bytes \<Rightarrow> int option) \<Rightarrow> (bytes \<Rightarrow> rat option) \<Rightarrow> header \<times> rat \<Rightarrow> line list
     \<Rightarrow> error + header \<times> rat" where
  "scan_lines to_int to_float s [] = Inr s"
| "scan_lines to_int to_float s (line # rest) =
     bind_err (scan_line to_int to_float s line) (\<lambda>s'. scan_lines to_int to_float s' rest)"

text \<open>
  The statements after the scan: the layer height test, then the derived speeds (a
  \<open>None\<close> operand of the arithmetic raises \<open>TypeError\<close>), the buffered Z offset of every
  extruder and the Z travel speed.
\<close>

definition finish_header :: "header \<times> rat \<Rightarrow> error + header" where
  "finish_header s =
     (let h = fst s; zo = snd s in
      if layer_height h \<noteq> Some (1/5) then Inl LayerHeightNotSupported
      else
        let h1 = h\<lparr>outer_perimeter_speed := default_speed h\<rparr> in
        case first_layer_speed h1 of
          None \<Rightarrow> Inl TypeError
        | Some p \<Rightarrow>
            (case outer_perimeter_speed h1 of
               None \<Rightarrow> Inl TypeError
             | Some v \<Rightarrow>
                 Inr (h1\<lparr>first_layer_speed := Some (p / 100 * v),
                         extruders := (\<lambda>t. map_option (\<lambda>e. e\<lparr>z_offset := Some zo\<rparr>)
                                                (extruders h1 t)),
                         travel_z_speed := travel_xy_speed h1\<rparr>)))"

text \<open>
  \<open>parse_header\<close>: the scan runs over the lines of all layers in order, with the local
  \<open>z_offset\<close> starting at 0.
\<close>

definition parse_header ::
  "(bytes \<Rightarrow> int option) \<Rightarrow> (bytes \<Rightarrow> rat option) \<Rightarrow> header \<Rightarrow> layer list
     \<Rightarrow> error + header" where
  "parse_header to_int to_float h all_layers =
     bind_err (scan_lines to_int to_float (h, 0) (concat (map lines all_layers))) finish_header"

section \<open>Properties of the slot derivation\<close>

lemma slot_loop_length: "length (fst (slot_loop sc xs)) = length xs"
  by (induction xs arbitrary: sc) (simp_all add: Let_def)

lemma slot_step_mono: "snd sc < 3 \<Longrightarrow> fst sc \<le> fst (slot_step sc r)"
  by (auto simp: slot_step_def Let_def)

lemma slot_step_count: "snd (slot_step sc r) < 3"
  by (auto simp: slot_step_def Let_def)

lemma slot_loop_mono: "snd sc < 3 \<Longrightarrow> fst sc \<le> snd (slot_loop sc xs)"
proof (induction xs arbitrary: sc)
  case Nil
  then show ?case by simp
next
  case (Cons r rs)
  have "fst sc \<le> fst (slot_step sc r)"
    using Cons.prems by (rule slot_step_mono)
  also have "\<dots> \<le> snd (slot_loop (slot_step sc r) rs)"
    by (rule Cons.IH) (rule slot_step_count)
  finally show ?case by (simp add: Let_def)
qed

lemma slot_loop_promoted_iff:
  "snd sc < 3 \<Longrightarrow>
   fst sc < snd (slot_loop sc xs) \<longleftrightarrow> 3 \<le> snd sc + length (filter (\<lambda>r. fst sc < r) xs)"
proof (induction xs arbitrary: sc)
  case Nil
  then show ?case by simp
next
  case (Cons r rs)
  obtain s c where sc: "sc = (s, c)" by (cases sc)
  show ?case
  proof (cases "s < r \<and> c = 2")
    case True
    then have st: "slot_step (s, 2) r = (r, 0)"
      by (simp add: slot_step_def Let_def)
    have "r \<le> snd (slot_loop (r, 0) rs)"
      using slot_loop_mono [of "(r, 0)" rs] by simp
    with True show ?thesis by (simp add: sc st Let_def)
  next
    case False
    have c3: "c < 3" using Cons.prems by (simp add: sc)
    with False have st: "slot_step (s, c) r = (s, if s < r then c + 1 else c)"
      by (auto simp: slot_step_def Let_def)
    have "snd (slot_step (s, c) r) < 3" by (rule slot_step_count)
    from Cons.IH [OF this] show ?thesis
      by (simp add: sc st Let_def)
  qed
qed

lemma slot_loop_take:
  "i < length xs \<Longrightarrow> fst (slot_loop sc xs) ! i = snd (slot_loop sc (take (Suc i) xs))"
proof (induction xs arbitrary: sc i)
  case Nil
  then show ?case by simp
next
  case (Cons r rs)
  show ?case
  proof (cases i)
    case 0
    then show ?thesis by (simp add: Let_def)
  next
    case (Suc j)
    with Cons.prems have "j < length rs" by simp
    from Cons.IH [OF this] show ?thesis by (simp add: Suc Let_def)
  qed
qed

lemma slot_loop_ge:
  "snd sc < 3 \<Longrightarrow> v \<in> set (fst (slot_loop sc xs)) \<Longrightarrow> fst sc \<le> v"
proof (induction xs arbitrary: sc)
  case Nil
  then show ?case by simp
next
  case (Cons r rs)
  have m: "fst sc \<le> fst (slot_step sc r)"
    using Cons.prems(1) by (rule slot_step_mono)
  from Cons.prems(2) consider "v = fst (slot_step sc r)"
    | "v \<in> set (fst (slot_loop (slot_step sc r) rs))"
    by (auto simp: Let_def)
  then show ?case
  proof cases
    case 1
    with m show ?thesis by simp
  next
    case 2
    have "fst (slot_step sc r) \<le> v"
      by (rule Cons.IH [OF slot_step_count 2])
    with m show ?thesis by simp
  qed
qed

text \<open>
  C4.  For the required counts [1,2,2,2,1], read from the highest bucket down, the loop
  started at slots = 1 and count = 0 stores [1,1,1,2,2]: the first two exceedances only
  raise the counter, the third replaces slots by 2 from that bucket on.
\<close>

theorem C4_example_slots: "fst (derive_slots [1, 2, 2, 2, 1]) = [1, 1, 1, 2, 2]"
  by (simp add: derive_slots_def slot_step_def Let_def)

lemma slot_loop_unchanged:
  "snd sc + length (filter (\<lambda>r. fst sc < r) xs) < 3 \<Longrightarrow>
   slot_loop sc xs = (replicate (length xs) (fst sc), fst sc)"
proof (induction xs arbitrary: sc)
  case Nil
  then show ?case by simp
next
  case (Cons r rs)
  obtain s c where sc: "sc = (s, c)" by (cases sc)
  from Cons.prems have st: "slot_step (s, c) r = (s, if s < r then c + 1 else c)"
    by (auto simp: slot_step_def sc Let_def)
  from Cons.prems have "snd (slot_step (s, c) r)
      + length (filter (\<lambda>x. fst (slot_step (s, c) r) < x) rs) < 3"
    by (simp add: st sc split: if_splits)
  from Cons.IH [OF this] show ?case
    by (simp add: sc st Let_def)
qed

text \<open>
  C2, as stated, fails: the count of exceedances is not reset by a bucket that does not
  exceed, so three exceedances that are not neighbours promote as well.  In [2,1,2,1,2]
  no three neighbouring buckets exceed 1, and slots still ends above 1.
\<close>

theorem C2_isolated_spikes_counterexample:
  "\<not> three_consecutive_exceed 1 [2, 1, 2, 1, 2] \<and> 1 < snd (derive_slots [2, 1, 2, 1, 2])"
  by (simp add: derive_slots_def slot_step_def Let_def)

text \<open>
  C2, amended.  From any point of the loop (slots = s, count = c < 3), the slot count is
  raised above s exactly when the count already reached plus the number of later buckets
  that require more than s (neighbours or not) is at least three; below three, every
  later bucket is stored with s.  For the loop as started (slots = 1, count = 0): slots
  is raised exactly when at least three buckets require more than 1.
\<close>

theorem C2_promotion_needs_three_exceedances:
  "(c < 3 \<longrightarrow>
      (s < snd (slot_loop (s, c) reqs) \<longleftrightarrow> 3 \<le> c + length (filter (\<lambda>r. s < r) reqs))) \<and>
   (c + length (filter (\<lambda>r. s < r) reqs) < 3 \<longrightarrow>
      slot_loop (s, c) reqs = (replicate (length reqs) s, s)) \<and>
   (1 < snd (derive_slots reqs) \<longleftrightarrow> 3 \<le> length (filter (\<lambda>r. 1 < r) reqs))"
  using slot_loop_promoted_iff [of "(s, c)" reqs] slot_loop_unchanged [of "(s, c)" reqs]
    slot_loop_promoted_iff [of "(1, 0)" reqs]
  by (simp add: derive_slots_def)

theorem C2_promotion_needs_three_exceedances_witness:
  "((1::nat) < 3 \<and> 2 < snd (slot_loop (2, 1) [3, 1, 2, 4]) \<and>
      3 \<le> 1 + length (filter (\<lambda>r. 2 < r) [3, 1, 2, 4 :: nat])) \<and>
   (0 + length (filter (\<lambda>r. 1 < r) [1, 3, 1 :: nat]) < 3 \<and>
      slot_loop (1, 0) [1, 3, 1] = ([1, 1, 1], 1)) \<and>
   (1 < snd (derive_slots [2, 1, 1, 2, 3]) \<and>
      3 \<le> length (filter (\<lambda>r. 1 < r) [2, 1, 1, 2, 3 :: nat]))"
  using C2_promotion_needs_three_exceedances [of 1 2 "[3, 1, 2, 4]"]
    C2_promotion_needs_three_exceedances [of 0 1 "[1, 3, 1]"]
    C2_promotion_needs_three_exceedances [of 0 1 "[2, 1, 1, 2, 3]"]
  by (simp add: numeral_3_eq_3)

text \<open>
  C3, as stated, fails: the slot count is stored after the promotion test of the same
  iteration.  In [1,2,2,2,1] the bucket at position 3 completes the count; slots was 1
  when the loop reached it, and the bucket is stored with 2.
\<close>

theorem C3_promoting_bucket_counterexample:
  "snd (derive_slots (take 3 [1, 2, 2, 2, 1])) = 1 \<and>
   fst (derive_slots [1, 2, 2, 2, 1]) ! 3 \<noteq> snd (derive_slots (take 3 [1, 2, 2, 2, 1]))"
  by (simp add: derive_slots_def slot_step_def Let_def)

text \<open>
  C3, amended.  Each bucket is stored with the slots value as it is after the promotion
  test of that bucket: the value the loop would end with if the bucket were the last
  one.  A promoting bucket therefore gets the promoted value itself.
\<close>

theorem C3_bucket_gets_value_after_its_step:
  "i < length reqs \<Longrightarrow>
   fst (derive_slots reqs) ! i = snd (derive_slots (take (Suc i) reqs))"
  unfolding derive_slots_def by (rule slot_loop_take)

theorem C3_bucket_gets_value_after_its_step_witness:
  "3 < length [1, 2, 2, 2, 1 :: nat] \<and>
   fst (derive_slots [1, 2, 2, 2, 1]) ! 3 = 2 \<and> snd (derive_slots (take 4 [1, 2, 2, 2, 1])) = 2"
  using C3_bucket_gets_value_after_its_step [of 3 "[1, 2, 2, 2, 1]"]
  by (simp add: derive_slots_def slot_step_def Let_def)
section \<open>Properties of grouping, tagging and packing\<close>

lemma map_of_add_layer:
  "map_of (add_layer l ld) =
     (map_of ld)(z l \<mapsto> (case map_of ld (z l) of None \<Rightarrow> [l] | Some ls \<Rightarrow> ls @ [l]))"
  by (induction ld) (auto simp: fun_eq_iff)

lemma keys_add_layer: "set (map fst (add_layer l ld)) = insert (z l) (set (map fst ld))"
  by (induction l ld rule: add_layer.induct) auto

lemma distinct_add_layer:
  "distinct (map fst ld) \<Longrightarrow> distinct (map fst (add_layer l ld))"
  by (induction l ld rule: add_layer.induct) (auto simp: keys_add_layer simp flip: set_map)

lemma group_layers_snoc: "group_layers (ls @ [l]) = add_layer l (group_layers ls)"
  by (simp add: group_layers_def)

lemma keys_group_layers: "set (map fst (group_layers ls)) = z ` set ls"
proof (induction ls rule: rev_induct)
  case Nil
  show ?case by (simp add: group_layers_def)
next
  case (snoc l ls)
  then show ?case
    by (simp only: group_layers_snoc keys_add_layer) auto
qed

lemma distinct_group_layers: "distinct (map fst (group_layers ls))"
proof (induction ls rule: rev_induct)
  case Nil
  show ?case by (simp add: group_layers_def)
next
  case (snoc l ls)
  then show ?case
    by (simp only: group_layers_snoc distinct_add_layer)
qed

lemma map_of_group_layers:
  "map_of (group_layers ls) k =
     (if k \<in> z ` set ls then Some (filter (\<lambda>l. z l = k) ls) else None)"
proof (induction ls rule: rev_induct)
  case Nil
  show ?case by (simp add: group_layers_def)
next
  case (snoc l ls)
  show ?case
    unfolding group_layers_snoc map_of_add_layer
    using snoc by (auto simp: filter_empty_conv image_iff eq_commute [of "z l"])
qed

lemma bucket_group_layers: "bucket (group_layers ls) k = filter (\<lambda>l. z l = k) ls"
  using filter_empty_conv [of "\<lambda>l. z l = k" ls]
  by (auto simp: bucket_def map_of_group_layers)

lemma set_zs_desc: "set (zs_desc ls) = z ` set ls"
  using keys_group_layers [of ls] by (simp add: zs_desc_def)

lemma distinct_zs_desc: "distinct (zs_desc ls)"
  using distinct_group_layers [of ls] by (simp add: zs_desc_def)

lemma mset_concat_buckets:
  "distinct ks \<Longrightarrow>
   mset (concat (map (\<lambda>k. filter (\<lambda>l. f l = k) ls) ks)) = filter_mset (\<lambda>l. f l \<in> set ks) (mset ls)"
proof (induction ks)
  case Nil
  then show ?case by simp
next
  case (Cons k ks)
  have "filter_mset (\<lambda>l. f l = k) (mset ls) + filter_mset (\<lambda>l. f l \<in> set ks) (mset ls)
      = filter_mset (\<lambda>l. f l \<in> set (k # ks)) (mset ls)"
    using Cons.prems by (induction ls) auto
  with Cons show ?case by simp
qed

lemma untag_tag_switch: "map untag (fst (tag_switch htc s ls)) = map untag ls"
  by (induction ls) (simp_all add: Let_def untag_def)

lemma untag_tag_others: "map untag (tag_others htc s n ls) = map untag ls"
  by (induction ls arbitrary: n) (simp_all add: untag_def)

lemma untag_tag_bucket: "map untag (tag_bucket htc s ls) = map untag ls"
  by (simp add: tag_bucket_def Let_def untag_tag_others untag_tag_switch)

lemma tag_switch_action:
  "l \<in> set (fst (tag_switch htc s ls)) \<Longrightarrow> htc l \<noteq> 0 \<Longrightarrow> action l \<noteq> None"
  by (induction ls) (auto simp: Let_def split: if_splits)

lemma tag_others_action:
  "\<forall>l \<in> set ls. htc l \<noteq> 0 \<longrightarrow> action l \<noteq> None \<Longrightarrow>
   l \<in> set (tag_others htc s n ls) \<Longrightarrow> action l \<noteq> None"
  by (induction ls arbitrary: n) (auto split: if_splits)

lemma tag_bucket_action:
  "s \<noteq> 0 \<Longrightarrow> l \<in> set (tag_bucket htc s ls) \<Longrightarrow> action l \<noteq> None"
  unfolding tag_bucket_def Let_def
  using tag_others_action [of "fst (tag_switch htc s ls)" htc l s "snd (tag_switch htc s ls)"]
    tag_switch_action [of _ htc s ls]
  by auto

lemma bucket_slots_keys: "map fst (bucket_slots htc ls) = zs_desc ls"
  by (simp add: bucket_slots_def Let_def derive_slots_def slot_loop_length)

lemma bucket_slots_ge1: "(k, s) \<in> set (bucket_slots htc ls) \<Longrightarrow> 1 \<le> s"
proof -
  assume "(k, s) \<in> set (bucket_slots htc ls)"
  then have "s \<in> set (fst (slot_loop (1, 0)
      (map (\<lambda>k. required htc (bucket (group_layers ls) k)) (zs_desc ls))))"
    by (auto simp: bucket_slots_def Let_def derive_slots_def dest: set_zip_rightD)
  from slot_loop_ge [OF _ this] show ?thesis by simp
qed

lemma slots_of_bucket_slots:
  assumes "k \<in> z ` set ls"
  shows "1 \<le> slots_of (bucket_slots htc ls) k"
proof -
  from assms have "k \<in> set (map fst (bucket_slots htc ls))"
    by (simp only: bucket_slots_keys set_zs_desc)
  then obtain s where s: "map_of (bucket_slots htc ls) k = Some s"
    by (metis map_of_eq_None_iff not_Some_eq set_map)
  then have "(k, s) \<in> set (bucket_slots htc ls)" by (rule map_of_SomeD)
  then have "1 \<le> s" by (rule bucket_slots_ge1)
  with s show ?thesis by (simp add: slots_of_def)
qed

lemma filter_layers_fst:
  "fst (filter_layers htc ls) =
     sort_key num (concat (map (\<lambda>k. tag_bucket htc (slots_of (bucket_slots htc ls) k)
        (filter (\<lambda>l. z l = k) ls)) (rev (zs_desc ls))))"
  by (simp add: filter_layers_def Let_def bucket_group_layers)

lemma filter_layers_untag:
  "mset (map untag (fst (filter_layers htc ls))) = mset (map untag ls)"
proof -
  have "mset (map untag (fst (filter_layers htc ls)))
      = image_mset untag (mset (concat (map (\<lambda>k. tag_bucket htc (slots_of (bucket_slots htc ls) k)
        (filter (\<lambda>l. z l = k) ls)) (rev (zs_desc ls)))))"
    by (simp add: filter_layers_fst)
  also have "\<dots> = mset (concat (map (\<lambda>k. map untag (filter (\<lambda>l. z l = k) ls)) (rev (zs_desc ls))))"
    by (simp add: map_concat comp_def untag_tag_bucket flip: mset_map)
  also have "\<dots> = image_mset untag (mset (concat (map (\<lambda>k. filter (\<lambda>l. z l = k) ls) (rev (zs_desc ls)))))"
    by (simp add: map_concat comp_def flip: mset_map)
  also have "\<dots> = image_mset untag (filter_mset (\<lambda>l. z l \<in> set (rev (zs_desc ls))) (mset ls))"
    by (subst mset_concat_buckets) (simp_all add: distinct_zs_desc)
  also have "\<dots> = image_mset untag (mset ls)"
  proof -
    have "filter_mset (\<lambda>l. z l \<in> z ` set ls) (mset ls) = mset ls"
      by (rule filter_mset_cong [where g = "\<lambda>_. True", simplified]) auto
    then show ?thesis by (simp add: set_zs_desc)
  qed
  finally show ?thesis by simp
qed

lemma filter_layers_action:
  assumes "l \<in> set (fst (filter_layers htc ls))"
  shows "action l \<noteq> None"
proof -
  from assms obtain k where k: "k \<in> z ` set ls"
    and l: "l \<in> set (tag_bucket htc (slots_of (bucket_slots htc ls) k) (filter (\<lambda>l. z l = k) ls))"
    by (auto simp: filter_layers_fst set_zs_desc)
  from slots_of_bucket_slots [OF k, of htc] have "slots_of (bucket_slots htc ls) k \<noteq> 0" by simp
  from tag_bucket_action [OF this l] show ?thesis .
qed

lemma num_untag: "num (untag l) = num l"
  by (simp add: untag_def)

lemma filter_layers_nums: "mset (map num (fst (filter_layers htc ls))) = mset (map num ls)"
proof -
  have "map num xs = map num (map untag xs)" for xs
    by (simp add: num_untag)
  then have "mset (map num xs) = image_mset num (mset (map untag xs))" for xs
    by (metis mset_map)
  then show ?thesis by (simp only: filter_layers_untag)
qed

lemmas filter_layers_eval =
  filter_layers_def Layer_def Let_def group_layers_def zs_desc_def bucket_slots_def bucket_def
  slots_of_def derive_slots_def slot_step_def required_def tag_bucket_def

text \<open>
  C9, as stated, fails in its last part: the packed list is sorted by \<open>num\<close>, and two
  layers may carry the same \<open>num\<close> (two markers with the same index open two such
  layers), so the sequence of ordinals need not be strictly increasing.
\<close>

theorem C9_equal_ordinals_counterexample:
  "\<not> sorted_wrt (<) (map num (fst (filter_layers (\<lambda>l. 0)
       [Layer 1 (1/4) (1/5), Layer 1 (1/2) (1/4)])))"
  by (simp add: filter_layers_eval)

text \<open>
  C9, amended.  The final list holds every layer of the input exactly once, with only the
  action tag and the slot count written (no layer is dropped: by C10 all are tagged), and
  it is sorted ascending by ordinal; the ordinals are strictly increasing whenever the
  input layers have pairwise different ordinals.
\<close>

theorem C9_filtered_sorted_by_ordinal:
  "sorted (map num (fst (filter_layers htc layers))) \<and>
   mset (map untag (fst (filter_layers htc layers))) = mset (map untag layers) \<and>
   (distinct (map num layers) \<longrightarrow> sorted_wrt (<) (map num (fst (filter_layers htc layers))))"
proof (intro conjI impI)
  show "sorted (map num (fst (filter_layers htc layers)))"
    by (simp add: filter_layers_fst)
  then show "sorted_wrt (<) (map num (fst (filter_layers htc layers)))"
    if "distinct (map num layers)"
    using that filter_layers_nums [of htc layers]
    by (metis strict_sorted_iff mset_eq_imp_distinct_iff)
  show "mset (map untag (fst (filter_layers htc layers))) = mset (map untag layers)"
    by (rule filter_layers_untag)
qed

theorem C9_filtered_sorted_by_ordinal_witness:
  "distinct (map num [Layer 2 (1/4) (1/4), Layer 0 (1/2) (1/4), Layer 1 (1/4) (1/4)]) \<and>
   map num (fst (filter_layers (\<lambda>l. if num l = 1 then 1 else 0)
       [Layer 2 (1/4) (1/4), Layer 0 (1/2) (1/4), Layer 1 (1/4) (1/4)])) = [0, 1, 2] \<and>
   sorted_wrt (<) (map num (fst (filter_layers (\<lambda>l. if num l = 1 then 1 else 0)
       [Layer 2 (1/4) (1/4), Layer 0 (1/2) (1/4), Layer 1 (1/4) (1/4)])))"
  using C9_filtered_sorted_by_ordinal [of "\<lambda>l. if num l = 1 then 1 else 0"
      "[Layer 2 (1/4) (1/4), Layer 0 (1/2) (1/4), Layer 1 (1/4) (1/4)]"]
  by (simp add: filter_layers_eval)

text \<open>
  C10.  Every bucket is stored with a slot count of at least 1, so the tagging loop never
  takes its skip for a zero slot count; every layer of the final list carries an action
  tag, and the final list holds every layer of the input (the same layers up to the two
  attributes tagging writes, and as many of them).
\<close>

theorem C10_slots_positive_all_tagged:
  "(\<forall>ks \<in> set (bucket_slots htc layers). 1 \<le> snd ks) \<and>
   map fst (bucket_slots htc layers) = zs_desc layers \<and>
   (\<forall>k \<in> set (zs_desc layers). slots_of (bucket_slots htc layers) k \<noteq> 0) \<and>
   (\<forall>l \<in> set (fst (filter_layers htc layers)). action l \<noteq> None) \<and>
   mset (map untag (fst (filter_layers htc layers))) = mset (map untag layers) \<and>
   length (fst (filter_layers htc layers)) = length layers"
proof (intro conjI ballI)
  fix ks assume "ks \<in> set (bucket_slots htc layers)"
  then show "1 \<le> snd ks" using bucket_slots_ge1 [of "fst ks" "snd ks"] by simp
next
  show "map fst (bucket_slots htc layers) = zs_desc layers"
    by (rule bucket_slots_keys)
next
  fix k assume "k \<in> set (zs_desc layers)"
  then have "k \<in> z ` set layers" by (simp only: set_zs_desc)
  from slots_of_bucket_slots [OF this, of htc]
  show "slots_of (bucket_slots htc layers) k \<noteq> 0" by simp
next
  fix l assume "l \<in> set (fst (filter_layers htc layers))"
  then show "action l \<noteq> None" by (rule filter_layers_action)
next
  show "mset (map untag (fst (filter_layers htc layers))) = mset (map untag layers)"
    by (rule filter_layers_untag)
next
  show "length (fst (filter_layers htc layers)) = length layers"
    using filter_layers_untag [of htc layers] by (metis length_map size_mset)
qed

theorem C10_slots_positive_all_tagged_witness:
  "bucket_slots (\<lambda>l. if num l = 1 then 1 else 0)
       [Layer 0 (1/4) (1/4), Layer 1 (1/2) (1/4), Layer 2 (1/2) (1/4)] = [(1/2, 1), (1/4, 1)] \<and>
   map action (fst (filter_layers (\<lambda>l. if num l = 1 then 1 else 0)
       [Layer 0 (1/4) (1/4), Layer 1 (1/2) (1/4), Layer 2 (1/2) (1/4)]))
     = [Some ACT_INFILL, Some ACT_SWITCH, Some ACT_PASS]"
  using C10_slots_positive_all_tagged [of "\<lambda>l. if num l = 1 then 1 else 0"
      "[Layer 0 (1/4) (1/4), Layer 1 (1/2) (1/4), Layer 2 (1/2) (1/4)]"]
  by (simp add: filter_layers_eval)

section \<open>Properties of the segmentation\<close>

lemmas marker_eval =
  check_layer_change_def LAYER_START_RE_match_def is_digit_def bind_err_def int_of_def
  float_of_def dec_int_def dec_float_def dec_nat_def Let_def

lemma marker_0_quarter:
  "check_layer_change dec_int dec_float ''BEFORE_LAYER_CHANGE 0 0.25'' None = Inr (Some (0, 1/4))"
  by (simp add: marker_eval)

lemma marker_0_half:
  "check_layer_change dec_int dec_float ''BEFORE_LAYER_CHANGE 0 0.5'' None = Inr (Some (0, 1/2))"
  by (simp add: marker_eval)

lemma marker_1_half:
  "check_layer_change dec_int dec_float ''BEFORE_LAYER_CHANGE 1 0.5'' None = Inr (Some (1, 1/2))"
  by (simp add: marker_eval)

lemma marker_2_one:
  "check_layer_change dec_int dec_float ''BEFORE_LAYER_CHANGE 2 1.0'' None = Inr (Some (2, 1))"
  by (simp add: marker_eval)

lemmas segment_eval =
  parse_layers_def seg_init_def parse_line_def bind_err_def layer_change_def Layer_def
  add_line_def g1_z_move_def summary_def Let_def
  marker_0_quarter marker_0_half marker_1_half marker_2_one

text \<open>
  C1 (the code does not do what the claim says).  Markers at Z = 0.25, 0.5 and 1.0, each
  confirmed by a Z move: the layer opened at Z = 1.0 while the current layer has
  Z = 0.5 is recorded with thickness 0.25, which is the Z of the layer being closed
  minus the Z of the layer before it, not 1.0 - 0.5.  This is so whether the first-layer
  object has ordinal 1 or 0; in the second case the layer opened at Z = 0.5 gets 0.05.
\<close>

theorem C1_thickness_lags_one_layer:
  "map_sum id (map summary)
     (parse_layers dec_int dec_float g1_z_move (Layer 1 (1/5) (1/5)) []
        [(None, Some ''BEFORE_LAYER_CHANGE 0 0.25''), (Some ''G1 Z0.25'', None),
         (None, Some ''BEFORE_LAYER_CHANGE 1 0.5''), (Some ''G1 Z0.5'', None),
         (None, Some ''BEFORE_LAYER_CHANGE 2 1.0''), (Some ''G1 Z1.0'', None)])
   = Inr [(1, 1/4, 1/5), (1, 1/2, 1/4), (2, 1, 1/4)] \<and>
   map_sum id (map summary)
     (parse_layers dec_int dec_float g1_z_move (Layer 0 (1/5) (1/5)) []
        [(None, Some ''BEFORE_LAYER_CHANGE 0 0.25''), (Some ''G1 Z0.25'', None),
         (None, Some ''BEFORE_LAYER_CHANGE 1 0.5''), (Some ''G1 Z0.5'', None),
         (None, Some ''BEFORE_LAYER_CHANGE 2 1.0''), (Some ''G1 Z1.0'', None)])
   = Inr [(0, 1/5, 1/5), (0, 1/4, 1/5), (1, 1/2, 1/20), (2, 1, 1/4)]"
  by (simp add: segment_eval)

lemma parse_lines_append:
  "parse_lines ti tf zm st (xs @ ys) =
     bind_err (parse_lines ti tf zm st xs) (\<lambda>st'. parse_lines ti tf zm st' ys)"
  by (induction xs arbitrary: st) (simp_all add: bind_err_def split: sum.splits)

lemma parse_line_plain:
  assumes "no_marker line" and "\<not> layer_start st \<or> \<not> z_move_cmd zm line"
  shows "parse_line ti tf zm st line = Inr (st\<lparr>current_layer := add_line (current_layer st) line\<rparr>)"
  using assms
  by (auto simp: parse_line_def no_marker_def z_move_cmd_def check_layer_change_def
      bind_err_def split: option.splits)

lemma parse_lines_plain:
  assumes "\<forall>line \<in> set xs. no_marker line"
    and "\<not> layer_start st \<or> (\<forall>line \<in> set xs. \<not> z_move_cmd zm line)"
  shows "parse_lines ti tf zm st xs =
     Inr (st\<lparr>current_layer := (current_layer st)\<lparr>lines := lines (current_layer st) @ xs\<rparr>\<rparr>)"
  using assms
proof (induction xs arbitrary: st)
  case Nil
  then show ?case by simp
next
  case (Cons x xs)
  let ?st = "st\<lparr>current_layer := add_line (current_layer st) x\<rparr>"
  have x: "parse_line ti tf zm st x = Inr ?st"
    using Cons.prems by (intro parse_line_plain) auto
  have "parse_lines ti tf zm ?st xs =
     Inr (?st\<lparr>current_layer := (current_layer ?st)\<lparr>lines := lines (current_layer ?st) @ xs\<rparr>\<rparr>)"
    using Cons.prems by (intro Cons.IH) auto
  then show ?case
    by (simp add: x bind_err_def add_line_def)
qed

lemma parse_line_marker:
  assumes "m \<noteq> []" and "check_layer_change ti tf m None = Inr (Some (n, zz))"
  shows "parse_line ti tf zm st (None, Some m) =
     Inr (st\<lparr>layer_num := n, layer_z := zz, layer_start := True,
             current_layer := add_line (current_layer st) (None, Some m)\<rparr>)"
  using assms by (simp add: parse_line_def bind_err_def)

lemma parse_line_confirm:
  assumes "layer_start st" and "cmd \<noteq> []" and "zm cmd" and "no_marker (Some cmd, comment)"
  shows "parse_line ti tf zm st (Some cmd, comment) =
     Inr ((layer_change st)\<lparr>current_layer :=
            add_line (current_layer (layer_change st)) (Some cmd, comment)\<rparr>)"
  using assms
  by (auto simp: parse_line_def no_marker_def check_layer_change_def bind_err_def Let_def
      split: option.splits)

lemma first_marker_run:
  assumes one: "num first = 1"
    and pre: "\<forall>line \<in> set pre. no_marker line"
    and m: "m \<noteq> []" "check_layer_change ti tf m None = Inr (Some (0, zz))"
    and mid: "\<forall>line \<in> set mid. no_marker line \<and> \<not> z_move_cmd zm line"
    and c: "cmd \<noteq> []" "zm cmd" "no_marker (Some cmd, comment)"
  shows "parse_layers ti tf zm first layers0 (pre @ [(None, Some m)] @ mid @ [(Some cmd, comment)])
     = Inr (layers0 @ [first\<lparr>z := zz,
          lines := lines first @ pre @ [(None, Some m)] @ mid @ [(Some cmd, comment)]\<rparr>])"
proof -
  let ?s0 = "seg_init first layers0"
  let ?s1 = "?s0\<lparr>current_layer := first\<lparr>lines := lines first @ pre\<rparr>\<rparr>"
  let ?s2 = "?s1\<lparr>layer_num := 0, layer_z := zz, layer_start := True,
                  current_layer := add_line (current_layer ?s1) (None, Some m)\<rparr>"
  let ?s3 = "?s2\<lparr>current_layer := (current_layer ?s2)\<lparr>lines := lines (current_layer ?s2) @ mid\<rparr>\<rparr>"
  have 1: "parse_lines ti tf zm ?s0 pre = Inr ?s1"
    using pre parse_lines_plain [of pre ?s0 zm ti tf] by (simp add: seg_init_def)
  have 2: "parse_line ti tf zm ?s1 (None, Some m) = Inr ?s2"
    using m by (rule parse_line_marker)
  have 3: "parse_lines ti tf zm ?s2 mid = Inr ?s3"
    using mid by (intro parse_lines_plain) auto
  have 4: "parse_line ti tf zm ?s3 (Some cmd, comment) =
      Inr ((layer_change ?s3)\<lparr>current_layer :=
            add_line (current_layer (layer_change ?s3)) (Some cmd, comment)\<rparr>)"
    using c by (intro parse_line_confirm) simp_all
  have 5: "layer_change ?s3 = ?s3\<lparr>layer_start := False,
              current_layer := (current_layer ?s3)\<lparr>z := zz\<rparr>\<rparr>"
    using one by (simp add: layer_change_def seg_init_def add_line_def)
  show ?thesis
    by (simp only: parse_layers_def parse_lines_append parse_lines.simps bind_err_def
        1 2 3 4 5 sum.case)
      (simp add: seg_init_def add_line_def)
qed

lemma confirm_event:
  assumes "layer_start st" and "cmd \<noteq> []" and "zm cmd" and "no_marker (Some cmd, comment)"
  shows "\<exists>st'. parse_line ti tf zm st (Some cmd, comment) = Inr st' \<and> \<not> layer_start st' \<and>
     (if num (current_layer st) = 1 \<and> layer_num st = 0
      then self_layers st' = self_layers st \<and>
           current_layer st' = (current_layer st)\<lparr>z := layer_z st,
              lines := lines (current_layer st) @ [(Some cmd, comment)]\<rparr>
      else self_layers st' = self_layers st @ [current_layer st] \<and>
           num (current_layer st') = layer_num st \<and> z (current_layer st') = layer_z st \<and>
           lines (current_layer st') = [(Some cmd, comment)])"
  unfolding parse_line_confirm [of st cmd zm comment ti tf, OF assms]
  by (simp add: layer_change_def add_line_def Layer_def Let_def)

text \<open>
  C7, as stated, fails.  With a first layer of ordinal 1, a second confirmed marker of
  index 0 is again taken as the Z of the current layer: no layer is closed and none is
  opened.  With a first layer of ordinal 0 the first marker already opens a second layer.
\<close>

theorem C7_later_marker_counterexample:
  "map_sum id (map summary)
     (parse_layers dec_int dec_float g1_z_move (Layer 1 (1/5) (1/5)) []
        [(None, Some ''BEFORE_LAYER_CHANGE 0 0.25''), (Some ''G1 Z0.25'', None),
         (None, Some ''BEFORE_LAYER_CHANGE 0 0.5''), (Some ''G1 Z0.5'', None)])
   = Inr [(1, 1/2, 1/5)] \<and>
   map_sum id (map summary)
     (parse_layers dec_int dec_float g1_z_move (Layer 0 (1/5) (1/5)) []
        [(None, Some ''BEFORE_LAYER_CHANGE 0 0.25''), (Some ''G1 Z0.25'', None)])
   = Inr [(0, 1/5, 1/5), (0, 1/4, 1/5)]"
  by (simp add: segment_eval)

text \<open>
  C7, amended.  (1) When the first-layer object has ordinal 1, the first marker has index
  0, and its confirming Z move is the first Z move after it, the run ends with the
  first-layer object alone, its Z set to the marker's Z and holding every line.
  (2) At any confirming Z move: if the current layer has ordinal 1 and the pending
  marker has index 0, the current layer takes the marker's Z and no layer is closed or
  opened; otherwise the current layer is closed and a new layer is opened with the
  marker's index and Z, starting with the confirming line.
\<close>

theorem C7_marker_confirmation:
  "(num first = 1 \<and> (\<forall>line \<in> set pre. no_marker line) \<and>
    m \<noteq> [] \<and> check_layer_change ti tf m None = Inr (Some (0, zz)) \<and>
    (\<forall>line \<in> set mid. no_marker line \<and> \<not> z_move_cmd zm line) \<and>
    cmd \<noteq> [] \<and> zm cmd \<and> no_marker (Some cmd, comment) \<longrightarrow>
    parse_layers ti tf zm first layers0 (pre @ [(None, Some m)] @ mid @ [(Some cmd, comment)])
      = Inr (layers0 @ [first\<lparr>z := zz,
          lines := lines first @ pre @ [(None, Some m)] @ mid @ [(Some cmd, comment)]\<rparr>])) \<and>
   (layer_start st \<and> cmd \<noteq> [] \<and> zm cmd \<and> no_marker (Some cmd, comment) \<longrightarrow>
    (\<exists>st'. parse_line ti tf zm st (Some cmd, comment) = Inr st' \<and> \<not> layer_start st' \<and>
     (if num (current_layer st) = 1 \<and> layer_num st = 0
      then self_layers st' = self_layers st \<and>
           current_layer st' = (current_layer st)\<lparr>z := layer_z st,
              lines := lines (current_layer st) @ [(Some cmd, comment)]\<rparr>
      else self_layers st' = self_layers st @ [current_layer st] \<and>
           num (current_layer st') = layer_num st \<and> z (current_layer st') = layer_z st \<and>
           lines (current_layer st') = [(Some cmd, comment)])))"
proof (intro conjI impI)
  assume "num first = 1 \<and> (\<forall>line \<in> set pre. no_marker line) \<and>
    m \<noteq> [] \<and> check_layer_change ti tf m None = Inr (Some (0, zz)) \<and>
    (\<forall>line \<in> set mid. no_marker line \<and> \<not> z_move_cmd zm line) \<and>
    cmd \<noteq> [] \<and> zm cmd \<and> no_marker (Some cmd, comment)"
  then show "parse_layers ti tf zm first layers0
      (pre @ [(None, Some m)] @ mid @ [(Some cmd, comment)])
      = Inr (layers0 @ [first\<lparr>z := zz,
          lines := lines first @ pre @ [(None, Some m)] @ mid @ [(Some cmd, comment)]\<rparr>])"
    by (intro first_marker_run) blast+
next
  assume "layer_start st \<and> cmd \<noteq> [] \<and> zm cmd \<and> no_marker (Some cmd, comment)"
  then show "\<exists>st'. parse_line ti tf zm st (Some cmd, comment) = Inr st' \<and> \<not> layer_start st' \<and>
     (if num (current_layer st) = 1 \<and> layer_num st = 0
      then self_layers st' = self_layers st \<and>
           current_layer st' = (current_layer st)\<lparr>z := layer_z st,
              lines := lines (current_layer st) @ [(Some cmd, comment)]\<rparr>
      else self_layers st' = self_layers st @ [current_layer st] \<and>
           num (current_layer st') = layer_num st \<and> z (current_layer st') = layer_z st \<and>
           lines (current_layer st') = [(Some cmd, comment)])"
    by (intro confirm_event) blast+
qed

theorem C7_marker_confirmation_witness:
  "map_sum id (map summary)
     (parse_layers dec_int dec_float g1_z_move (Layer 1 (1/5) (1/5)) []
        ([(Some ''G28'', None)] @ [(None, Some ''BEFORE_LAYER_CHANGE 0 0.25'')] @
         [(Some ''G1 X5'', None)] @ [(Some ''G1 Z0.25'', None)]))
     = Inr [(1, 1/4, 1/5)] \<and>
   map_sum id (\<lambda>st'. (map summary (self_layers st'), summary (current_layer st')))
     (parse_line dec_int dec_float g1_z_move
        ((seg_init (Layer 1 (1/4) (1/5)) [])\<lparr>layer_start := True, layer_num := 1, layer_z := 1/2\<rparr>)
        (Some ''G1 Z0.5'', None))
     = Inr ([(1, 1/4, 1/5)], (1, 1/2, 1/4))"
  using C7_marker_confirmation [of "Layer 1 (1/5) (1/5)" "[(Some ''G28'', None)]"
      "''BEFORE_LAYER_CHANGE 0 0.25''" dec_int dec_float "1/4" "[(Some ''G1 X5'', None)]"
      g1_z_move "''G1 Z0.25''" None "[]"
      "(seg_init (Layer 1 (1/4) (1/5)) [])\<lparr>layer_start := True, layer_num := 1, layer_z := 1/2\<rparr>"]
  by (simp add: segment_eval no_marker_def z_move_cmd_def)

section \<open>Properties of the first tool change\<close>

lemma first_tool_change_found:
  assumes "i < length ls" and "sge < int (k + i)" and "detected itc (ls ! i) \<noteq> None"
    and "\<forall>j<i. \<not> (sge < int (k + j) \<and> detected itc (ls ! j) \<noteq> None)"
  shows "first_tool_change itc sge k ls = Some (k + i, ls ! i)"
  using assms
proof (induction ls arbitrary: k i)
  case Nil
  then show ?case by simp
next
  case (Cons x xs)
  show ?case
  proof (cases i)
    case 0
    with Cons.prems show ?thesis by simp
  next
    case (Suc n)
    from Cons.prems(4) Suc have x: "\<not> (sge < int k \<and> detected itc x \<noteq> None)"
      by (metis add.right_neutral nth_Cons_0 zero_less_Suc)
    have "first_tool_change itc sge (Suc k) xs = Some (Suc k + n, xs ! n)"
    proof (rule Cons.IH)
      show "n < length xs" using Cons.prems(1) Suc by simp
      show "sge < int (Suc k + n)" using Cons.prems(2) Suc by simp
      show "detected itc (xs ! n) \<noteq> None" using Cons.prems(3) Suc by simp
      show "\<forall>j<n. \<not> (sge < int (Suc k + j) \<and> detected itc (xs ! j) \<noteq> None)"
      proof (intro allI impI)
        fix j assume "j < n"
        then have "Suc j < i" using Suc by simp
        with Cons.prems(4) have "\<not> (sge < int (k + Suc j) \<and> detected itc ((x # xs) ! Suc j) \<noteq> None)"
          by blast
        then show "\<not> (sge < int (Suc k + j) \<and> detected itc (xs ! j) \<noteq> None)" by simp
      qed
    qed
    with x Suc show ?thesis by simp
  qed
qed

lemma first_tool_change_none:
  assumes "\<forall>j<length ls. \<not> (sge < int (k + j) \<and> detected itc (ls ! j) \<noteq> None)"
  shows "first_tool_change itc sge k ls = None"
  using assms
proof (induction ls arbitrary: k)
  case Nil
  then show ?case by simp
next
  case (Cons x xs)
  from Cons.prems have x: "\<not> (sge < int k \<and> detected itc x \<noteq> None)"
    by (metis add.right_neutral length_greater_0_conv list.distinct(1) nth_Cons_0)
  have "first_tool_change itc sge (Suc k) xs = None"
  proof (rule Cons.IH, intro allI impI)
    fix j assume "j < length xs"
    then have "Suc j < length (x # xs)" by simp
    with Cons.prems have "\<not> (sge < int (k + Suc j) \<and> detected itc ((x # xs) ! Suc j) \<noteq> None)"
      by blast
    then show "\<not> (sge < int (Suc k + j) \<and> detected itc (xs ! j) \<noteq> None)" by simp
  qed
  with x show ?case by simp
qed

text \<open>
  C8.  The detector's side value is taken to be the tool it matched (first hypothesis).
  If line \<open>i\<close> of the first layer is the first line past the start-gcode region whose
  command is a tool change, then a tool 0 deletes exactly that line and any other tool
  inserts the marker comment immediately before it; every other line, tool changes
  included, and every other layer stay as they are.  Without such a line nothing changes.
\<close>

theorem C8_first_tool_change_only:
  "(\<forall>c. is_tool_change c \<noteq> None \<longrightarrow> last_match c = is_tool_change c) \<longrightarrow>
   ((tool_change_at is_tool_change sge (lines l) i \<and>
     (\<forall>j<i. \<not> tool_change_at is_tool_change sge (lines l) j) \<longrightarrow>
     parse_print_settings is_tool_change last_match sge (l # rest) =
       Inr ((if detected is_tool_change (lines l ! i) = Some 0
             then l\<lparr>lines := take i (lines l) @ drop (Suc i) (lines l)\<rparr>
             else l\<lparr>lines := take i (lines l) @ (None, Some ''TOOL CHANGE'') # drop i (lines l)\<rparr>)
            # rest)) \<and>
    ((\<forall>j. \<not> tool_change_at is_tool_change sge (lines l) j) \<longrightarrow>
     parse_print_settings is_tool_change last_match sge (l # rest) = Inr (l # rest)))"
proof (intro impI conjI)
  assume lm: "\<forall>c. is_tool_change c \<noteq> None \<longrightarrow> last_match c = is_tool_change c"
  assume "tool_change_at is_tool_change sge (lines l) i \<and>
     (\<forall>j<i. \<not> tool_change_at is_tool_change sge (lines l) j)"
  then have i: "i < length (lines l)" "sge < int i" "detected is_tool_change (lines l ! i) \<noteq> None"
    and first: "\<forall>j<i. \<not> (sge < int j \<and> detected is_tool_change (lines l ! j) \<noteq> None)"
    by (auto simp: tool_change_at_def)
  have f: "first_tool_change is_tool_change sge 0 (lines l) = Some (i, lines l ! i)"
    using first_tool_change_found [of i "lines l" sge 0 is_tool_change] i first by simp
  from i(3) obtain cmd where cmd: "fst (lines l ! i) = Some cmd" "cmd \<noteq> []"
      "is_tool_change cmd \<noteq> None"
    by (auto simp: detected_def split: option.splits if_splits)
  with lm have "last_match cmd = is_tool_change cmd" by blast
  with cmd have "(case fst (lines l ! i) of None \<Rightarrow> None | Some c \<Rightarrow> last_match c)
      = detected is_tool_change (lines l ! i)"
    by (simp add: detected_def)
  then show "parse_print_settings is_tool_change last_match sge (l # rest) =
       Inr ((if detected is_tool_change (lines l ! i) = Some 0
             then l\<lparr>lines := take i (lines l) @ drop (Suc i) (lines l)\<rparr>
             else l\<lparr>lines := take i (lines l) @ (None, Some ''TOOL CHANGE'') # drop i (lines l)\<rparr>)
            # rest)"
    by (simp add: parse_print_settings_def f delete_line_def insert_line_def)
next
  assume "\<forall>j. \<not> tool_change_at is_tool_change sge (lines l) j"
  then have "first_tool_change is_tool_change sge 0 (lines l) = None"
    by (intro first_tool_change_none) (simp add: tool_change_at_def)
  then show "parse_print_settings is_tool_change last_match sge (l # rest) = Inr (l # rest)"
    by (simp add: parse_print_settings_def)
qed

lemmas settings_eval =
  parse_print_settings_def detected_def t_digit_def is_digit_def delete_line_def insert_line_def
  tool_change_at_def Layer_def

theorem C8_first_tool_change_only_witness:
  "map_sum id (map lines)
     (parse_print_settings t_digit t_digit 0
        [(Layer 1 (1/5) (1/5))\<lparr>lines := [(Some ''T1'', None), (Some ''G28'', None),
            (Some ''T0'', None), (Some ''G1 X1'', None), (Some ''T1'', None)]\<rparr>])
     = Inr [[(Some ''T1'', None), (Some ''G28'', None), (Some ''G1 X1'', None), (Some ''T1'', None)]] \<and>
   map_sum id (map lines)
     (parse_print_settings t_digit t_digit 0
        [(Layer 1 (1/5) (1/5))\<lparr>lines := [(Some ''G28'', None), (Some ''T1'', None),
            (Some ''T0'', None)]\<rparr>])
     = Inr [[(Some ''G28'', None), (None, Some ''TOOL CHANGE''), (Some ''T1'', None),
            (Some ''T0'', None)]]"
  using C8_first_tool_change_only [of t_digit t_digit 0
      "(Layer 1 (1/5) (1/5))\<lparr>lines := [(Some ''T1'', None), (Some ''G28'', None),
            (Some ''T0'', None), (Some ''G1 X1'', None), (Some ''T1'', None)]\<rparr>" 2 "[]"]
    C8_first_tool_change_only [of t_digit t_digit 0
      "(Layer 1 (1/5) (1/5))\<lparr>lines := [(Some ''G28'', None), (Some ''T1'', None),
            (Some ''T0'', None)]\<rparr>" 1 "[]"]
  by (simp add: settings_eval)

section \<open>Properties of the header settings\<close>

lemma bind_err_Inl:
  "bind_err m f = Inl e \<longleftrightarrow> m = Inl e \<or> (\<exists>x. m = Inr x \<and> f x = Inl e)"
  by (cases m) (simp_all add: bind_err_def)

lemma bind_err_Inr [simp]: "bind_err (Inr x) f = f x"
  by (simp add: bind_err_def)

lemma float_of_error: "float_of tf s = Inl e \<Longrightarrow> e = ValueError"
  by (simp add: float_of_def split: option.splits)

lemma int_of_error: "int_of ti s = Inl e \<Longrightarrow> e = ValueError"
  by (simp add: int_of_def split: option.splits)

lemma value_of_error: "value_of c = Inl e \<Longrightarrow> e = IndexError"
  by (simp add: value_of_def split: list.splits)

lemma coord_error: "coord tf v i = Inl e \<Longrightarrow> e \<in> {ValueError, IndexError}"
  by (auto simp: coord_def Let_def split: if_splits dest: float_of_error)

lemma delta_points_error: "delta_points tf vs = Inl e \<Longrightarrow> e \<in> {ValueError, IndexError}"
proof (induction vs arbitrary: e)
  case Nil
  then show ?case by simp
next
  case (Cons v vs)
  from Cons.prems consider "coord tf v 0 = Inl e" | "coord tf v 1 = Inl e"
    | "delta_points tf vs = Inl e"
    by (auto simp: bind_err_Inl)
  then show ?case
    using coord_error Cons.IH by cases blast+
qed

lemma bed_shape_error: "bed_shape tf vs h = Inl e \<Longrightarrow> e \<in> {ValueError, IndexError}"
proof (cases "length vs = 4")
  case True
  assume "bed_shape tf vs h = Inl e"
  with True obtain v i where "coord tf v i = Inl e"
    by (auto simp: bed_shape_def bind_err_Inl)
  then show ?thesis by (rule coord_error)
next
  case False
  assume "bed_shape tf vs h = Inl e"
  with False consider "delta_points tf vs = Inl e"
    | r where "(case r of (x # xs, y # ys) \<Rightarrow>
              let sx = fold max xs x - fold min xs x;
                  sy = fold max ys y - fold min ys y
              in Inr (h\<lparr>machine_type := Some TYPE_DELTA,
                        stroke_x := Some sx, stroke_y := Some sy,
                        origin_offset_x := Some (sx / 2), origin_offset_y := Some (sy / 2)\<rparr>)
          | _ \<Rightarrow> Inl ValueError) = Inl e"
    by (auto simp: bed_shape_def bind_err_Inl)
  then show ?thesis
  proof cases
    case 1
    then show ?thesis by (rule delta_points_error)
  next
    case 2
    obtain xs ys where r: "r = (xs, ys)" by (cases r)
    from 2 have "e = ValueError"
      by (cases xs; cases ys) (simp_all add: r Let_def)
    then show ?thesis by simp
  qed
qed

lemma for_tools_error:
  assumes "\<And>t d x err. upd t d x = Inl err \<Longrightarrow> err = ValueError"
  shows "for_tools upd t ds exts = Inl e \<Longrightarrow> e = ValueError"
proof (induction ds arbitrary: t exts)
  case Nil
  then show ?case by simp
next
  case (Cons d ds)
  then show ?case
    using assms by (auto simp: Let_def bind_err_Inl)
qed

lemma per_tool_error:
  assumes "\<And>t d x err. upd t d x = Inl err \<Longrightarrow> err = ValueError"
    and "per_tool upd sep c h = Inl e"
  shows "e \<in> {ValueError, IndexError}"
proof -
  from assms(2) consider "value_of c = Inl e"
    | vs where "for_tools upd 0 vs (extruders h) = Inl e"
    by (auto simp: per_tool_def bind_err_Inl)
  then show ?thesis
  proof cases
    case 1
    then show ?thesis using value_of_error by blast
  next
    case 2
    then show ?thesis using for_tools_error [of upd] assms(1) by blast
  qed
qed

lemma apply_annotation_error:
  assumes "apply_annotation ti tf a c s = Inl e"
  shows "e \<in> {ValueError, IndexError} \<or> (a = UseRelativeE \<and> e = RelativeENotEnabled)"
proof -
  obtain h zo where s: "s = (h, zo)" by (cases s)
  have pt: "e \<in> {ValueError, IndexError}"
    if "per_tool upd sep c h = Inl e"
      and "\<And>t d x err. upd t d x = Inl err \<Longrightarrow> err = ValueError" for upd sep
    using that per_tool_error [of upd sep c h e] by blast
  have fl: "e \<in> {ValueError, IndexError}"
    if "value_of c = Inl e \<or> (\<exists>v. float_of tf v = Inl e)"
    using that value_of_error float_of_error by blast
  show ?thesis
  proof (cases a)
    case Generated
    with assms s show ?thesis by simp
  next
    case BedShape
    with assms s show ?thesis
      by (auto simp: bind_err_Inl dest: value_of_error bed_shape_error)
  next
    case ExtrusionMultiplier
    with assms s show ?thesis
      by (auto simp: bind_err_Inl dest!: pt dest: float_of_error)
  next
    case FilamentType
    with assms s show ?thesis
      by (auto simp: bind_err_Inl dest!: pt)
  next
    case RetractLength
    with assms s show ?thesis
      by (auto simp: bind_err_Inl dest!: pt dest: float_of_error)
  next
    case RetractLift
    with assms s show ?thesis
      by (auto simp: bind_err_Inl dest!: pt dest: float_of_error)
  next
    case RetractSpeed
    with assms s show ?thesis
      by (auto simp: bind_err_Inl dest!: pt dest: float_of_error)
  next
    case UseRelativeE
    with assms s show ?thesis
      by (auto simp: bind_err_Inl dest: value_of_error split: if_splits)
  next
    case Wipe
    with assms s show ?thesis
      by (auto simp: bind_err_Inl dest!: pt)
  next
    case PerimeterSpeed
    with assms s show ?thesis
      by (auto simp: bind_err_Inl dest: value_of_error float_of_error)
  next
    case ZOffset
    with assms s show ?thesis
      by (auto simp: bind_err_Inl dest: value_of_error float_of_error)
  next
    case FirstLayerSpeed
    with assms s show ?thesis
      by (auto simp: bind_err_Inl dest: value_of_error float_of_error)
  next
    case TravelSpeed
    with assms s show ?thesis
      by (auto simp: bind_err_Inl dest: value_of_error float_of_error)
  next
    case LayerHeight
    with assms s show ?thesis
      by (auto simp: bind_err_Inl dest: value_of_error float_of_error)
  next
    case FirstLayerTemperature
    with assms s show ?thesis
      by (auto simp: bind_err_Inl dest!: pt dest: int_of_error)
  next
    case Temperature
    with assms s show ?thesis
      by (auto simp: bind_err_Inl dest!: pt dest: int_of_error)
  qed
qed

lemma scan_line_error:
  "scan_line ti tf s line = Inl e \<Longrightarrow> e \<noteq> LayerHeightNotSupported"
  by (auto simp: scan_line_def split: if_splits option.splits dest: apply_annotation_error)

lemma scan_lines_error:
  "scan_lines ti tf s xs = Inl e \<Longrightarrow> e \<noteq> LayerHeightNotSupported"
proof (induction xs arbitrary: s)
  case Nil
  then show ?case by simp
next
  case (Cons x xs)
  then show ?case
    by (auto simp: bind_err_Inl dest: scan_line_error)
qed

lemma scan_lines_append:
  "scan_lines ti tf s (xs @ ys) =
     bind_err (scan_lines ti tf s xs) (\<lambda>s'. scan_lines ti tf s' ys)"
  by (induction xs arbitrary: s) (simp_all add: bind_err_def split: sum.splits)

lemmas header_eval =
  scan_line_def truthy_def annotation_of_def annotation_keys_def value_of_def bytes_split_def
  bytes_strip_def float_of_def dec_float_def dec_nat_def is_digit_def bind_err_def Let_def

lemma line_layer_height_02:
  "scan_line dec_int dec_float (h, zo) (None, Some '' layer_height = 0.2'')
     = Inr (h\<lparr>layer_height := Some (1/5)\<rparr>, zo)"
  by (simp add: header_eval)

lemma line_layer_height_03:
  "scan_line dec_int dec_float (h, zo) (None, Some '' layer_height = 0.3'')
     = Inr (h\<lparr>layer_height := Some (3/10)\<rparr>, zo)"
  by (simp add: header_eval)

lemma line_layer_height_bad:
  "scan_line dec_int dec_float (h, zo) (None, Some '' layer_height = abc'') = Inl ValueError"
  by (simp add: header_eval)

lemma line_perimeter_speed:
  "scan_line dec_int dec_float (h, zo) (None, Some '' perimeter_speed = 40'')
     = Inr (h\<lparr>default_speed := Some 2400\<rparr>, zo)"
  by (simp add: header_eval)

lemma line_first_layer_speed:
  "scan_line dec_int dec_float (h, zo) (None, Some '' first_layer_speed = 70%'')
     = Inr (h\<lparr>first_layer_speed := Some 70\<rparr>, zo)"
  by (simp add: header_eval)

lemma line_relative_e_0:
  "scan_line dec_int dec_float (h, zo) (None, Some '' use_relative_e_distances = 0'')
     = Inl RelativeENotEnabled"
  by (simp add: header_eval)

lemma key_relative_e_0:
  "annotation_of '' use_relative_e_distances = 0'' = Some UseRelativeE \<and>
   value_of '' use_relative_e_distances = 0'' = Inr ''0''"
  by (simp add: header_eval)

lemma key_layer_height_02:
  "annotation_of '' layer_height = 0.2'' = Some LayerHeight \<and>
   value_of '' layer_height = 0.2'' = Inr ''0.2'' \<and> dec_float ''0.2'' = Some (1/5)"
  by (simp add: header_eval)

lemmas header_lines =
  line_layer_height_02 line_layer_height_03 line_layer_height_bad line_perimeter_speed
  line_first_layer_speed line_relative_e_0

lemmas header_run =
  parse_header_def finish_header_def init_header_def blank_header_def Layer_def
  bind_err_def Let_def

text \<open>
  C5, as stated, fails in its first half: a layer height of 0.2 does not make header
  parsing succeed.  With the height annotation alone the default speed is still
  \<open>None\<close> and the speed arithmetic after the scan raises; with all speeds present, a
  disabled relative-E annotation raises inside the scan.
\<close>

theorem C5_supported_height_counterexample:
  "parse_header dec_int dec_float (init_header blank_header)
     [(Layer 1 (1/5) (1/5))\<lparr>lines := [(None, Some '' layer_height = 0.2'')]\<rparr>]
     = Inl TypeError \<and>
   parse_header dec_int dec_float (init_header blank_header)
     [(Layer 1 (1/5) (1/5))\<lparr>lines :=
        [(None, Some '' perimeter_speed = 40''), (None, Some '' first_layer_speed = 70%''),
         (None, Some '' layer_height = 0.2''),
         (None, Some '' use_relative_e_distances = 0'')]\<rparr>]
     = Inl RelativeENotEnabled"
  by (simp add: header_run header_lines)

text \<open>
  C5, amended.  A layer-height annotation line stores its value.  When the scan ends
  without raising and the stored layer height is not 0.2, header parsing fails with the
  layer-height error; when header parsing returns, the layer height is 0.2.  With layer
  height 0.2 it returns provided the scan raised nothing and both the default speed and
  the first-layer speed are set; an exception of the scan is the result of the parse.
\<close>

theorem C5_layer_height_gate:
  "(\<not> truthy cmd \<and> annotation_of c = Some LayerHeight \<and> value_of c = Inr v \<and> tf v = Some f \<longrightarrow>
      scan_line ti tf (h0, zo) (cmd, Some c) = Inr (h0\<lparr>layer_height := Some f\<rparr>, zo)) \<and>
   (parse_header ti tf h all_layers = Inr h' \<longrightarrow> layer_height h' = Some (1/5)) \<and>
   (scan_lines ti tf (h, 0) (concat (map lines all_layers)) = Inr s1 \<longrightarrow>
      (layer_height (fst s1) \<noteq> Some (1/5) \<longrightarrow>
         parse_header ti tf h all_layers = Inl LayerHeightNotSupported) \<and>
      (layer_height (fst s1) = Some (1/5) \<and> default_speed (fst s1) \<noteq> None \<and>
       first_layer_speed (fst s1) \<noteq> None \<longrightarrow>
         (\<exists>h'. parse_header ti tf h all_layers = Inr h'))) \<and>
   (scan_lines ti tf (h, 0) (concat (map lines all_layers)) = Inl e \<longrightarrow>
      parse_header ti tf h all_layers = Inl e)"
proof (intro conjI impI)
  assume "\<not> truthy cmd \<and> annotation_of c = Some LayerHeight \<and> value_of c = Inr v \<and> tf v = Some f"
  then show "scan_line ti tf (h0, zo) (cmd, Some c) = Inr (h0\<lparr>layer_height := Some f\<rparr>, zo)"
    by (simp add: scan_line_def float_of_def)
next
  assume "parse_header ti tf h all_layers = Inr h'"
  then obtain s where "finish_header s = Inr h'"
    by (auto simp: parse_header_def bind_err_def split: sum.splits)
  then show "layer_height h' = Some (1/5)"
    by (auto simp: finish_header_def Let_def split: if_splits option.splits)
next
  assume "scan_lines ti tf (h, 0) (concat (map lines all_layers)) = Inr s1"
    and "layer_height (fst s1) \<noteq> Some (1/5)"
  then show "parse_header ti tf h all_layers = Inl LayerHeightNotSupported"
    by (simp add: parse_header_def finish_header_def Let_def)
next
  assume "scan_lines ti tf (h, 0) (concat (map lines all_layers)) = Inr s1"
    and "layer_height (fst s1) = Some (1/5) \<and> default_speed (fst s1) \<noteq> None \<and>
       first_layer_speed (fst s1) \<noteq> None"
  then show "\<exists>h'. parse_header ti tf h all_layers = Inr h'"
    by (auto simp: parse_header_def finish_header_def Let_def)
next
  assume "scan_lines ti tf (h, 0) (concat (map lines all_layers)) = Inl e"
  then show "parse_header ti tf h all_layers = Inl e"
    by (simp add: parse_header_def bind_err_def)
qed

theorem C5_layer_height_gate_witness:
  "map_sum id layer_height
     (parse_header dec_int dec_float (init_header blank_header)
        [(Layer 1 (1/5) (1/5))\<lparr>lines :=
           [(None, Some '' perimeter_speed = 40''), (None, Some '' first_layer_speed = 70%''),
            (None, Some '' layer_height = 0.2'')]\<rparr>])
     = Inr (Some (1/5)) \<and>
   parse_header dec_int dec_float (init_header blank_header)
     [(Layer 1 (1/5) (1/5))\<lparr>lines :=
        [(None, Some '' perimeter_speed = 40''), (None, Some '' first_layer_speed = 70%''),
         (None, Some '' layer_height = 0.3'')]\<rparr>]
     = Inl LayerHeightNotSupported \<and>
   scan_line dec_int dec_float (blank_header, 0) (None, Some '' layer_height = 0.2'')
     = Inr (blank_header\<lparr>layer_height := Some (1/5)\<rparr>, 0)"
proof (intro conjI)
  let ?good = "[(Layer 1 (1/5) (1/5))\<lparr>lines :=
           [(None, Some '' perimeter_speed = 40''), (None, Some '' first_layer_speed = 70%''),
            (None, Some '' layer_height = 0.2'')]\<rparr>]"
  let ?bad = "[(Layer 1 (1/5) (1/5))\<lparr>lines :=
        [(None, Some '' perimeter_speed = 40''), (None, Some '' first_layer_speed = 70%''),
         (None, Some '' layer_height = 0.3'')]\<rparr>]"
  let ?h = "init_header blank_header"
  let ?sg = "(?h\<lparr>default_speed := Some 2400, first_layer_speed := Some 70,
                  layer_height := Some (1/5)\<rparr>, 0::rat)"
  let ?sb = "(?h\<lparr>default_speed := Some 2400, first_layer_speed := Some 70,
                  layer_height := Some (3/10)\<rparr>, 0::rat)"
  have good: "scan_lines dec_int dec_float (?h, 0) (concat (map lines ?good)) = Inr ?sg"
    by (simp add: Layer_def header_lines)
  have bad: "scan_lines dec_int dec_float (?h, 0) (concat (map lines ?bad)) = Inr ?sb"
    by (simp add: Layer_def header_lines)
  have "\<exists>h'. parse_header dec_int dec_float ?h ?good = Inr h'"
    using C5_layer_height_gate [of None "'' layer_height = 0.2''" "''0.2''" dec_float "1/5"
        dec_int blank_header 0 ?h ?good blank_header ?sg ValueError] good
    by (simp only: fst_conv simp_thms) (simp add: init_header_def)
  then obtain h' where ok: "parse_header dec_int dec_float ?h ?good = Inr h'" ..
  then have "layer_height h' = Some (1/5)"
    using C5_layer_height_gate [of None "'' layer_height = 0.2''" "''0.2''" dec_float "1/5"
        dec_int blank_header 0 ?h ?good h' ?sg ValueError]
    by blast
  with ok show "map_sum id layer_height (parse_header dec_int dec_float ?h ?good)
      = Inr (Some (1/5))"
    by simp
  have "layer_height (fst ?sb) \<noteq> Some (1/5)"
    by (simp add: init_header_def)
  with bad show "parse_header dec_int dec_float ?h ?bad = Inl LayerHeightNotSupported"
    using C5_layer_height_gate [of None "'' layer_height = 0.2''" "''0.2''" dec_float "1/5"
        dec_int blank_header 0 ?h ?bad blank_header ?sb ValueError]
    by blast
  show "scan_line dec_int dec_float (blank_header, 0) (None, Some '' layer_height = 0.2'')
     = Inr (blank_header\<lparr>layer_height := Some (1/5)\<rparr>, 0)"
    using C5_layer_height_gate [of None "'' layer_height = 0.2''" "''0.2''" dec_float "1/5"
        dec_int blank_header 0 ?h ?bad blank_header ?sb ValueError] key_layer_height_02
    by (simp only: truthy_def option.case simp_thms)
qed

text \<open>
  C6, as stated, fails for the relative-E validation: it is made inside the scan and
  aborts it.  After a disabled relative-E line, a line whose value cannot be read (and
  would raise \<open>ValueError\<close> if the scan reached it) is never processed.
\<close>

theorem C6_relative_e_aborts_scan_counterexample:
  "parse_header dec_int dec_float (init_header blank_header)
     [(Layer 1 (1/5) (1/5))\<lparr>lines :=
        [(None, Some '' use_relative_e_distances = 0''),
         (None, Some '' layer_height = abc'')]\<rparr>]
     = Inl RelativeENotEnabled \<and>
   parse_header dec_int dec_float (init_header blank_header)
     [(Layer 1 (1/5) (1/5))\<lparr>lines := [(None, Some '' layer_height = abc'')]\<rparr>]
     = Inl ValueError"
  by (simp add: header_run header_lines)

text \<open>
  C6, amended.  The layer-height validation is made once, after the full scan: the
  layer-height error is only raised when every line was scanned without an exception.
  The relative-E validation is made inside the scan, at the annotation line: when the
  lines before it were scanned without an exception and its value is not \<open>1\<close>, the scan
  raises there, whatever lines follow; the only error raised for the want of relative E
  comes from such a line.
\<close>

theorem C6_validation_points:
  "(scan_lines ti tf s pre = Inr s1 \<and> \<not> truthy cmd \<and> annotation_of c = Some UseRelativeE \<and>
    value_of c = Inr v \<and> v \<noteq> ''1'' \<longrightarrow>
      scan_lines ti tf s (pre @ (cmd, Some c) # rest) = Inl RelativeENotEnabled) \<and>
   (parse_header ti tf h all_layers = Inl LayerHeightNotSupported \<longrightarrow>
      (\<exists>s2. scan_lines ti tf (h, 0) (concat (map lines all_layers)) = Inr s2 \<and>
            layer_height (fst s2) \<noteq> Some (1/5))) \<and>
   (scan_line ti tf s line = Inl RelativeENotEnabled \<longrightarrow>
      (\<exists>c'. snd line = Some c' \<and> annotation_of c' = Some UseRelativeE \<and>
            value_of c' \<noteq> Inr ''1''))"
proof (intro conjI impI)
  assume a: "scan_lines ti tf s pre = Inr s1 \<and> \<not> truthy cmd \<and>
    annotation_of c = Some UseRelativeE \<and> value_of c = Inr v \<and> v \<noteq> ''1''"
  obtain h1 zo where s1: "s1 = (h1, zo)" by (cases s1)
  from a have "scan_line ti tf s1 (cmd, Some c) = Inl RelativeENotEnabled"
    by (simp add: scan_line_def s1)
  with a show "scan_lines ti tf s (pre @ (cmd, Some c) # rest) = Inl RelativeENotEnabled"
    by (simp add: scan_lines_append bind_err_def)
next
  assume p: "parse_header ti tf h all_layers = Inl LayerHeightNotSupported"
  show "\<exists>s2. scan_lines ti tf (h, 0) (concat (map lines all_layers)) = Inr s2 \<and>
            layer_height (fst s2) \<noteq> Some (1/5)"
  proof (cases "scan_lines ti tf (h, 0) (concat (map lines all_layers))")
    case (Inl e)
    with p have "e = LayerHeightNotSupported"
      by (simp add: parse_header_def bind_err_def)
    with Inl scan_lines_error show ?thesis by blast
  next
    case (Inr s2)
    with p have "finish_header s2 = Inl LayerHeightNotSupported"
      by (simp add: parse_header_def)
    then have "layer_height (fst s2) \<noteq> Some (1/5)"
      by (auto simp: finish_header_def Let_def split: if_splits option.splits)
    with Inr show ?thesis by blast
  qed
next
  assume r: "scan_line ti tf s line = Inl RelativeENotEnabled"
  then obtain c' a where c': "snd line = Some c'" "annotation_of c' = Some a"
      "apply_annotation ti tf a c' s = Inl RelativeENotEnabled"
    by (auto simp: scan_line_def split: if_splits option.splits)
  with apply_annotation_error [of ti tf a c' s RelativeENotEnabled]
  have a: "a = UseRelativeE" by simp
  obtain h1 zo where s: "s = (h1, zo)" by (cases s)
  from c'(3) have "value_of c' \<noteq> Inr ''1''"
    by (auto simp: a s)
  with c' a show "\<exists>c'. snd line = Some c' \<and> annotation_of c' = Some UseRelativeE \<and>
            value_of c' \<noteq> Inr ''1''"
    by blast
qed

theorem C6_validation_points_witness:
  "scan_lines dec_int dec_float (blank_header, 0)
     ([(None, Some '' perimeter_speed = 40'')] @
      (None, Some '' use_relative_e_distances = 0'') # [(None, Some '' layer_height = abc'')])
     = Inl RelativeENotEnabled \<and>
   parse_header dec_int dec_float (init_header blank_header)
     [(Layer 1 (1/5) (1/5))\<lparr>lines := [(None, Some '' layer_height = 0.3'')]\<rparr>]
     = Inl LayerHeightNotSupported \<and>
   scan_line dec_int dec_float (blank_header, 0) (None, Some '' use_relative_e_distances = 0'')
     = Inl RelativeENotEnabled"
proof (intro conjI)
  let ?s1 = "(blank_header\<lparr>default_speed := Some 2400\<rparr>, 0::rat)"
  have pre: "scan_lines dec_int dec_float (blank_header, 0)
      [(None, Some '' perimeter_speed = 40'')] = Inr ?s1"
    by (simp add: header_lines)
  have hyp: "scan_lines dec_int dec_float (blank_header, 0)
      [(None, Some '' perimeter_speed = 40'')] = Inr ?s1 \<and> \<not> truthy None \<and>
      annotation_of '' use_relative_e_distances = 0'' = Some UseRelativeE \<and>
      value_of '' use_relative_e_distances = 0'' = Inr ''0'' \<and> ''0'' \<noteq> ''1''"
    using pre key_relative_e_0 by (simp add: truthy_def)
  show "scan_lines dec_int dec_float (blank_header, 0)
     ([(None, Some '' perimeter_speed = 40'')] @
      (None, Some '' use_relative_e_distances = 0'') # [(None, Some '' layer_height = abc'')])
     = Inl RelativeENotEnabled"
    using C6_validation_points [of dec_int dec_float "(blank_header, 0)"
      "[(None, Some '' perimeter_speed = 40'')]" ?s1 None
      "'' use_relative_e_distances = 0''" "''0''" "[(None, Some '' layer_height = abc'')]"
      "init_header blank_header"
      "[(Layer 1 (1/5) (1/5))\<lparr>lines := [(None, Some '' layer_height = 0.3'')]\<rparr>]"
      "(None, Some '' use_relative_e_distances = 0'')"] hyp
    by blast
  show "parse_header dec_int dec_float (init_header blank_header)
     [(Layer 1 (1/5) (1/5))\<lparr>lines := [(None, Some '' layer_height = 0.3'')]\<rparr>]
     = Inl LayerHeightNotSupported"
    by (simp add: header_run header_lines)
  show "scan_line dec_int dec_float (blank_header, 0)
      (None, Some '' use_relative_e_distances = 0'') = Inl RelativeENotEnabled"
    by (rule line_relative_e_0)
qed


end
